theory Spec2Isabelle
  imports Main
begin

section \<open>Arweave bundle upload: data model\<close>

text \<open>
  A shallow embedding of \<^verbatim>\<open>js/packages/cli/src/helpers/upload/arweave-bundle.ts\<close>.
  Every asynchronous function of the source is modelled by the value its promise settles
  to: \<open>Inr v\<close> when it resolves with \<open>v\<close>, \<open>Inl e\<close> when it rejects. The
  functions thread the list of external calls made so far (file system, signer, network),
  newest call last, so that the order of the effects can be stated.
\<close>

type_synonym path = string

text \<open>A tag of a data item: its name and its content.\<close>

type_synonym tag = "string \<times> string"

text \<open>The source's \<^verbatim>\<open>FilePair\<close>: the cache key and the two full paths.\<close>

record FilePair =
  key :: string
  image_file :: path
  manifest :: path

text \<open>The source's \<^verbatim>\<open>BundleRange = { range, size }\<close>.\<close>

record BundleRange =
  range_count :: nat
  size_bytes :: nat

text \<open>
  What \<^verbatim>\<open>JSON.parse\<close> returns. An array is a JavaScript object too: besides its
  elements it carries the named properties assigned to it (none after parsing). An object
  is the list of its own properties in property order. A number is kept as its text: the
  program never computes with the numbers of a document.
\<close>

datatype json =
    JNull
  | JBool bool
  | JNum string
  | JStr string
  | JArr "json list" "(string \<times> json) list"
  | JObj "(string \<times> json) list"

text \<open>
  An arbundles \<^verbatim>\<open>DataItem\<close>: the payload, the tags, and the id that
  \<^verbatim>\<open>sign\<close> assigns (\<open>None\<close> before signing).
\<close>

record DataItem =
  payload :: string
  tags :: "tag list"
  item_id :: "string option"

text \<open>The source's \<^verbatim>\<open>ProcessedBundleFilePairs\<close> and \<^verbatim>\<open>UploadGeneratorResult\<close>.\<close>

record UploadGeneratorResult =
  cacheKeys :: "string list"
  manifestLinks :: "string list"
  updatedManifests :: "json list"

record ProcessedBundleFilePairs = UploadGeneratorResult +
  dataItems :: "DataItem list"

text \<open>
  The ways a promise of this module rejects. \<open>OversizePair\<close> is the \<^verbatim>\<open>Error\<close>
  thrown by \<^verbatim>\<open>getBundleRange\<close>, with the key and the byte size its message embeds.
  \<open>SignerError\<close> and \<open>ClientError\<close> are what \<^verbatim>\<open>new ArweaveSigner(jwk)\<close> and
  \<^verbatim>\<open>getArweave()\<close> throw inside the generator.
\<close>

datatype error =
    OversizePair string nat
  | StatError path
  | ReadError path
  | ParseError path
  | TypeError
  | SigningError
  | BundlingError
  | SubmissionError
  | SignerError
  | ClientError

text \<open>The external calls, in the order the source makes them.\<close>

datatype event =
    EStat path
  | EReadFile path
  | ESignItem DataItem
  | EBundleAndSignData "DataItem list"
  | EToTransaction
  | ESignTransaction
  | EPostTransaction

text \<open>
  The collaborators of the module. The file system is read-only and does not change
  during a run. The id a signature yields and the success of a library call may depend on
  everything that happened before (signatures are salted, the network has a state), so
  they take the history of calls. \<open>path_join\<close> is Node's \<^verbatim>\<open>path.join\<close>;
  \<open>EXTENSION_PNG\<close> is the constant the module imports from \<^verbatim>\<open>../constants\<close>.
  \<open>lib_call\<close> tells whether \<^verbatim>\<open>bundleAndSignData\<close>, \<^verbatim>\<open>toTransaction\<close>,
  \<^verbatim>\<open>transactions.sign\<close> or \<^verbatim>\<open>transactions.post\<close> returns rather than throws.
  \<open>ArweaveSigner_new\<close> tells whether \<^verbatim>\<open>new ArweaveSigner(jwk)\<close> returns for a key
  (the parameter \<^verbatim>\<open>jwk: any\<close>, a parsed key file), \<open>getArweave_new\<close> whether
  \<^verbatim>\<open>new Arweave({...})\<close> does.
\<close>

record env =
  stat :: "path \<Rightarrow> nat option"
  readFile :: "path \<Rightarrow> string option"
  json_parse :: "string \<Rightarrow> json option"
  json_stringify :: "json \<Rightarrow> string"
  sign_item :: "event list \<Rightarrow> DataItem \<Rightarrow> string option"
  lib_call :: "event list \<Rightarrow> event \<Rightarrow> bool"
  path_join :: "string \<Rightarrow> string \<Rightarrow> string"
  EXTENSION_PNG :: string
  ArweaveSigner_new :: "json \<Rightarrow> bool"
  getArweave_new :: bool

section \<open>Constants\<close>

definition BUNDLE_SIZE_BYTE_LIMIT :: nat where
  "BUNDLE_SIZE_BYTE_LIMIT = 200 * 1000 * 1000"

definition BASE_TAGS :: "tag list" where
  "BASE_TAGS = [(''App-Name'', ''Metaplex Candy Machine'')]"

definition CONTENT_TYPES_png :: string where
  "CONTENT_TYPES_png = ''image/png''"

definition contentTypeTags_png :: tag where
  "contentTypeTags_png = (''Content-Type'', CONTENT_TYPES_png)"

definition contentTypeTags_json :: tag where
  "contentTypeTags_json = (''Content-Type'', ''application/json'')"

definition imageTags :: "tag list" where
  "imageTags = BASE_TAGS @ [contentTypeTags_png]"

definition manifestTags :: "tag list" where
  "manifestTags = BASE_TAGS @ [contentTypeTags_json]"

section \<open>The size-bounded range selector\<close>

text \<open>
  The inner \<^verbatim>\<open>reduce\<close> of \<^verbatim>\<open>getBundleRange\<close>: \<^verbatim>\<open>stat\<close> the image, then the
  manifest, and add the two sizes. A failing \<^verbatim>\<open>stat\<close> rejects at once.
\<close>

definition filePairSize ::
  "env \<Rightarrow> FilePair \<Rightarrow> event list \<Rightarrow> (error + nat) \<times> event list" where
  "filePairSize E p tr =
     (case stat E (image_file p) of
        None \<Rightarrow> (Inl (StatError (image_file p)), tr @ [EStat (image_file p)])
      | Some a \<Rightarrow>
          (case stat E (manifest p) of
             None \<Rightarrow> (Inl (StatError (manifest p)),
                       tr @ [EStat (image_file p), EStat (manifest p)])
           | Some b \<Rightarrow> (Inr (0 + a + b), tr @ [EStat (image_file p), EStat (manifest p)])))"

text \<open>
  The \<^verbatim>\<open>for\<close> loop of \<^verbatim>\<open>getBundleRange\<close>, with the running \<^verbatim>\<open>total\<close> and
  \<^verbatim>\<open>range\<close> as arguments. The byte limit is an argument as well: the source reads the
  module constant \<^verbatim>\<open>BUNDLE_SIZE_BYTE_LIMIT\<close>, which \<open>getBundleRange\<close> below passes.
\<close>

fun bundleRangeLoop ::
  "nat \<Rightarrow> env \<Rightarrow> nat \<Rightarrow> nat \<Rightarrow> FilePair list \<Rightarrow> event list \<Rightarrow>
     (error + BundleRange) \<times> event list" where
  "bundleRangeLoop limit E total' range' [] tr =
     (Inr \<lparr>range_count = range', size_bytes = total'\<rparr>, tr)"
| "bundleRangeLoop limit E total' range' (p # ps) tr =
     (case filePairSize E p tr of
        (Inl e, tr') \<Rightarrow> (Inl e, tr')
      | (Inr filePairSize', tr') \<Rightarrow>
          if total' + filePairSize' \<ge> limit then
            (if range' = 0 then (Inl (OversizePair (key p) filePairSize'), tr')
             else (Inr \<lparr>range_count = range', size_bytes = total'\<rparr>, tr'))
          else bundleRangeLoop limit E (total' + filePairSize') (range' + 1) ps tr')"

definition getBundleRangeWith ::
  "nat \<Rightarrow> env \<Rightarrow> FilePair list \<Rightarrow> event list \<Rightarrow> (error + BundleRange) \<times> event list" where
  "getBundleRangeWith limit E filePairs tr = bundleRangeLoop limit E 0 0 filePairs tr"

definition getBundleRange ::
  "env \<Rightarrow> FilePair list \<Rightarrow> event list \<Rightarrow> (error + BundleRange) \<times> event list" where
  "getBundleRange E filePairs tr = getBundleRangeWith BUNDLE_SIZE_BYTE_LIMIT E filePairs tr"

section \<open>The pair transformer\<close>

text \<open>\<^verbatim>\<open>createData(data, signer, { tags })\<close>: an unsigned data item.\<close>

definition createData :: "string \<Rightarrow> tag list \<Rightarrow> DataItem" where
  "createData d ts = \<lparr>payload = d, tags = ts, item_id = None\<rparr>"

text \<open>
  \<^verbatim>\<open>await item.sign(signer)\<close>: the item receives its id, or the promise rejects.
\<close>

definition signDataItem ::
  "env \<Rightarrow> DataItem \<Rightarrow> event list \<Rightarrow> (error + DataItem) \<times> event list" where
  "signDataItem E d tr =
     (case sign_item E tr d of
        None \<Rightarrow> (Inl SigningError, tr @ [ESignItem d])
      | Some i \<Rightarrow> (Inr (d\<lparr>item_id := Some i\<rparr>), tr @ [ESignItem d]))"

text \<open>The template \<^verbatim>\<open>`https://arweave.net/${item.id}`\<close>.\<close>

definition arweaveLink :: "string \<Rightarrow> string" where
  "arweaveLink i = ''https://arweave.net/'' @ i"

definition getImageDataItem ::
  "env \<Rightarrow> path \<Rightarrow> event list \<Rightarrow> (error + DataItem) \<times> event list" where
  "getImageDataItem E image' tr =
     (case readFile E image' of
        None \<Rightarrow> (Inl (ReadError image'), tr @ [EReadFile image'])
      | Some bytes \<Rightarrow> (Inr (createData bytes imageTags), tr @ [EReadFile image']))"

definition getManifestDataItem :: "env \<Rightarrow> json \<Rightarrow> DataItem" where
  "getManifestDataItem E manifest' = createData (json_stringify E manifest') manifestTags"

text \<open>
  The assignment \<^verbatim>\<open>o[k] = v\<close> on the own properties of an object, for a key that is
  not an array index: a property that exists keeps its place, a new one comes last.
\<close>

fun assignProp :: "string \<Rightarrow> json \<Rightarrow> (string \<times> json) list \<Rightarrow> (string \<times> json) list" where
  "assignProp k v [] = [(k, v)]"
| "assignProp k v ((k', v') # ps) =
     (if k' = k then (k, v) # ps else (k', v') # assignProp k v ps)"

text \<open>
  \<^verbatim>\<open>target[k] = v\<close> for any parsed document. The module is an ES module, hence strict
  code: the assignment throws a \<^verbatim>\<open>TypeError\<close> on \<^verbatim>\<open>null\<close> and on a primitive.
\<close>

fun assignMember :: "json \<Rightarrow> string \<Rightarrow> json \<Rightarrow> error + json" where
  "assignMember (JObj ps) k v = Inr (JObj (assignProp k v ps))"
| "assignMember (JArr xs ps) k v = Inr (JArr xs (assignProp k v ps))"
| "assignMember _ k v = Inl TypeError"

text \<open>
  \<^verbatim>\<open>target[k]\<close> for a key that no prototype defines: \<open>None\<close> is \<^verbatim>\<open>undefined\<close>.
  Reading a member of \<^verbatim>\<open>null\<close> throws; a primitive has no such member.
\<close>

fun getMember :: "json \<Rightarrow> string \<Rightarrow> error + json option" where
  "getMember (JObj ps) k = Inr (map_of ps k)"
| "getMember (JArr xs ps) k = Inr (map_of ps k)"
| "getMember JNull k = Inl TypeError"
| "getMember _ k = Inr None"

text \<open>
  The two assignments of \<^verbatim>\<open>getUpdatedManifest\<close>:
  \<^verbatim>\<open>manifest.image = imageLink\<close> and
  \<^verbatim>\<open>manifest.properties.files = [{ type: CONTENT_TYPES['png'], uri: imageLink }]\<close>.
  The second one changes the object that \<^verbatim>\<open>manifest.properties\<close> refers to, which the
  model writes back under the same key.
\<close>

definition filesEntry :: "string \<Rightarrow> json" where
  "filesEntry imageLink = JObj [(''type'', JStr CONTENT_TYPES_png), (''uri'', JStr imageLink)]"

definition updateManifest :: "json \<Rightarrow> string \<Rightarrow> error + json" where
  "updateManifest parsed imageLink =
     (case assignMember parsed ''image'' (JStr imageLink) of
        Inl e \<Rightarrow> Inl e
      | Inr manifest1 \<Rightarrow>
          (case getMember manifest1 ''properties'' of
             Inl e \<Rightarrow> Inl e
           | Inr None \<Rightarrow> Inl TypeError
           | Inr (Some properties) \<Rightarrow>
               (case assignMember properties ''files'' (JArr [filesEntry imageLink] []) of
                  Inl e \<Rightarrow> Inl e
                | Inr properties' \<Rightarrow> assignMember manifest1 ''properties'' properties')))"

definition getUpdatedManifest ::
  "env \<Rightarrow> path \<Rightarrow> string \<Rightarrow> event list \<Rightarrow> (error + json) \<times> event list" where
  "getUpdatedManifest E manifestPath imageLink tr =
     (case readFile E manifestPath of
        None \<Rightarrow> (Inl (ReadError manifestPath), tr @ [EReadFile manifestPath])
      | Some text' \<Rightarrow>
          (case json_parse E text' of
             None \<Rightarrow> (Inl (ParseError manifestPath), tr @ [EReadFile manifestPath])
           | Some parsed \<Rightarrow> (updateManifest parsed imageLink, tr @ [EReadFile manifestPath])))"

text \<open>
  The callback of the outer \<^verbatim>\<open>reduce\<close>. Each step that rejects ends the callback; the
  accumulator is extended only when every step has succeeded.
\<close>

definition processBundleFilePair ::
  "env \<Rightarrow> ProcessedBundleFilePairs \<Rightarrow> FilePair \<Rightarrow> event list \<Rightarrow>
     (error + ProcessedBundleFilePairs) \<times> event list" where
  "processBundleFilePair E acc filePair tr =
     (case getImageDataItem E (image_file filePair) tr of
        (Inl e, tr1) \<Rightarrow> (Inl e, tr1)
      | (Inr unsignedImage, tr1) \<Rightarrow>
     (case signDataItem E unsignedImage tr1 of
        (Inl e, tr2) \<Rightarrow> (Inl e, tr2)
      | (Inr imageDataItem, tr2) \<Rightarrow>
     (let imageLink = arweaveLink (the (item_id imageDataItem)) in
     (case getUpdatedManifest E (manifest filePair) imageLink tr2 of
        (Inl e, tr3) \<Rightarrow> (Inl e, tr3)
      | (Inr manifest', tr3) \<Rightarrow>
     (case signDataItem E (getManifestDataItem E manifest') tr3 of
        (Inl e, tr4) \<Rightarrow> (Inl e, tr4)
      | (Inr manifestDataItem, tr4) \<Rightarrow>
     (let manifestLink = arweaveLink (the (item_id manifestDataItem)) in
      (Inr (acc\<lparr>cacheKeys := cacheKeys acc @ [key filePair],
                dataItems := dataItems acc @ [imageDataItem, manifestDataItem],
                manifestLinks := manifestLinks acc @ [manifestLink],
                updatedManifests := updatedManifests acc @ [manifest']\<rparr>), tr4)))))))"

text \<open>
  \<^verbatim>\<open>bundleFilePairs.reduce(processBundleFilePair, ...)\<close>: every callback awaits the
  accumulator of the one before, so the pairs are processed one after the other and a
  rejection skips all the pairs that follow.
\<close>

fun reduceFilePairs ::
  "env \<Rightarrow> ProcessedBundleFilePairs \<Rightarrow> FilePair list \<Rightarrow> event list \<Rightarrow>
     (error + ProcessedBundleFilePairs) \<times> event list" where
  "reduceFilePairs E acc [] tr = (Inr acc, tr)"
| "reduceFilePairs E acc (filePair # rest) tr =
     (case processBundleFilePair E acc filePair tr of
        (Inl e, tr') \<Rightarrow> (Inl e, tr')
      | (Inr acc', tr') \<Rightarrow> reduceFilePairs E acc' rest tr')"

definition emptyProcessed :: ProcessedBundleFilePairs where
  "emptyProcessed =
     \<lparr>cacheKeys = [], manifestLinks = [], updatedManifests = [], dataItems = []\<rparr>"

section \<open>The bundle assembler and the driver\<close>

text \<open>A call into arbundles or arweave that either succeeds or throws.\<close>

definition libStep :: "env \<Rightarrow> event \<Rightarrow> error \<Rightarrow> event list \<Rightarrow> error option \<times> event list" where
  "libStep E ev err tr = (if lib_call E tr ev then None else Some err, tr @ [ev])"

text \<open>
  \<^verbatim>\<open>processBundle\<close>, the continuation of \<^verbatim>\<open>getBundleRange\<close>. Its first effect is
  \<^verbatim>\<open>filePairs.splice(0, range)\<close> on the array the generator owns, so the function
  returns what is left of that array together with the settled result.
\<close>

definition processBundle ::
  "env \<Rightarrow> FilePair list \<Rightarrow> BundleRange \<Rightarrow> event list \<Rightarrow>
     (error + UploadGeneratorResult) \<times> FilePair list \<times> event list" where
  "processBundle E filePairs r tr =
     (let bundleFilePairs = take (range_count r) filePairs;
          filePairs' = drop (range_count r) filePairs
      in
      (case reduceFilePairs E emptyProcessed bundleFilePairs tr of
         (Inl e, tr1) \<Rightarrow> (Inl e, filePairs', tr1)
       | (Inr acc, tr1) \<Rightarrow>
      (case libStep E (EBundleAndSignData (dataItems acc)) BundlingError tr1 of
         (Some e, tr2) \<Rightarrow> (Inl e, filePairs', tr2)
       | (None, tr2) \<Rightarrow>
      (case libStep E EToTransaction BundlingError tr2 of
         (Some e, tr3) \<Rightarrow> (Inl e, filePairs', tr3)
       | (None, tr3) \<Rightarrow>
      (case libStep E ESignTransaction SigningError tr3 of
         (Some e, tr4) \<Rightarrow> (Inl e, filePairs', tr4)
       | (None, tr4) \<Rightarrow>
      (case libStep E EPostTransaction SubmissionError tr4 of
         (Some e, tr5) \<Rightarrow> (Inl e, filePairs', tr5)
       | (None, tr5) \<Rightarrow>
           (Inr \<lparr>cacheKeys = cacheKeys acc, manifestLinks = manifestLinks acc,
                 updatedManifests = updatedManifests acc\<rparr>, filePairs', tr5)))))))"

text \<open>
  The generator object. \<open>Created\<close>: no \<^verbatim>\<open>next()\<close> yet, with the arguments
  \<^verbatim>\<open>dirname\<close>, \<^verbatim>\<open>assets\<close> and \<^verbatim>\<open>jwk\<close>. \<open>Suspended\<close>: stopped at a
  \<^verbatim>\<open>yield\<close>, with the \<^verbatim>\<open>filePairs\<close> array; both \<^verbatim>\<open>yield\<close>s continue at the
  test of the \<^verbatim>\<open>while\<close> loop. \<open>Completed\<close>: the function body has returned or
  thrown.
\<close>

datatype generator =
    Created string "string list" json
  | Suspended "FilePair list"
  | Completed

text \<open>
  What \<^verbatim>\<open>next()\<close> does: it returns a yielded promise (here with what the promise
  settles to), or returns done, or throws what the generator body threw.
\<close>

datatype 'a iteratorResult = Yield 'a | Done | Thrown error

definition mkFilePair :: "env \<Rightarrow> string \<Rightarrow> string \<Rightarrow> FilePair" where
  "mkFilePair E dirname asset =
     \<lparr>key = asset,
      image_file = path_join E dirname (asset @ EXTENSION_PNG E),
      manifest = path_join E dirname (asset @ ''.json'')\<rparr>"

definition makeArweaveBundleUploadGenerator ::
  "string \<Rightarrow> string list \<Rightarrow> json \<Rightarrow> generator" where
  "makeArweaveBundleUploadGenerator dirname assets jwk = Created dirname assets jwk"

text \<open>The result of the first \<^verbatim>\<open>yield\<close>.\<close>

definition emptyResult :: UploadGeneratorResult where
  "emptyResult = \<lparr>cacheKeys = [], manifestLinks = [], updatedManifests = []\<rparr>"

text \<open>
  One \<^verbatim>\<open>generator.next()\<close>, followed by awaiting the promise it yields: the caller waits
  for each bundle before it asks for the next one. The first \<^verbatim>\<open>next()\<close> runs the body
  up to the first \<^verbatim>\<open>yield\<close>: it constructs the signer from the key, then the arweave
  client, then the file pairs. A constructor that throws ends the generator.
\<close>

fun generatorNext ::
  "env \<Rightarrow> generator \<Rightarrow> event list \<Rightarrow>
     (error + UploadGeneratorResult) iteratorResult \<times> generator \<times> event list" where
  "generatorNext E (Created dirname assets jwk) tr =
     (if \<not> ArweaveSigner_new E jwk then (Thrown SignerError, Completed, tr)
      else if \<not> getArweave_new E then (Thrown ClientError, Completed, tr)
      else (Yield (Inr emptyResult), Suspended (map (mkFilePair E dirname) assets), tr))"
| "generatorNext E (Suspended filePairs) tr =
     (if length filePairs = 0 then (Done, Completed, tr)
      else
        (case getBundleRange E filePairs tr of
           (Inl e, tr1) \<Rightarrow> (Yield (Inl e), Suspended filePairs, tr1)
         | (Inr r, tr1) \<Rightarrow>
             (case processBundle E filePairs r tr1 of
                (res, filePairs', tr2) \<Rightarrow> (Yield res, Suspended filePairs', tr2))))"
| "generatorNext E Completed tr = (Done, Completed, tr)"

section \<open>The caller of the generator\<close>

text \<open>A measure of what a generator still has to do.\<close>

fun generatorSize :: "generator \<Rightarrow> nat" where
  "generatorSize (Created dirname assets jwk) = length assets + 2"
| "generatorSize (Suspended filePairs) = length filePairs + 1"
| "generatorSize Completed = 0"

text \<open>A range computed on a non-empty list has a count between one and the length of the
  list, so a resolved bundle leaves the generator with less to do.\<close>

lemma loop_range_bounds:
  "fst (bundleRangeLoop L E t r ps tr) = Inr br \<Longrightarrow>
     r \<le> range_count br \<and> range_count br \<le> r + length ps \<and>
     (ps \<noteq> [] \<and> r = 0 \<longrightarrow> 1 \<le> range_count br)"
proof (induction ps arbitrary: t r tr)
  case Nil
  then show ?case by auto
next
  case (Cons p ps)
  obtain res tr1 where f: "filePairSize E p tr = (res, tr1)" by (cases "filePairSize E p tr")
  show ?case
  proof (cases res)
    case (Inl e)
    with Cons.prems f show ?thesis by simp
  next
    case (Inr s)
    show ?thesis
    proof (cases "L \<le> t + s")
      case True
      with Cons.prems f Inr show ?thesis by (auto split: if_splits)
    next
      case False
      with Cons.prems f Inr
      have "fst (bundleRangeLoop L E (t + s) (r + 1) ps tr1) = Inr br" by simp
      from Cons.IH [OF this] show ?thesis by auto
    qed
  qed
qed

lemma getBundleRange_bounds:
  "getBundleRange E ps tr = (Inr r, tr1) \<Longrightarrow> ps \<noteq> [] \<Longrightarrow>
     1 \<le> range_count r \<and> range_count r \<le> length ps"
  using loop_range_bounds [of BUNDLE_SIZE_BYTE_LIMIT E 0 0 ps tr r]
  by (simp add: getBundleRange_def getBundleRangeWith_def)

lemma processBundle_rest:
  "processBundle E ps r tr = (res, ps', tr') \<Longrightarrow> ps' = drop (range_count r) ps"
  by (auto simp: processBundle_def Let_def split: prod.splits sum.splits option.splits)

lemma generatorNext_decreases:
  assumes "generatorNext E g tr = (Yield (Inr res), g', tr')"
  shows "generatorSize g' < generatorSize g"
proof (cases g)
  case (Created d as k)
  with assms show ?thesis by (auto split: if_splits)
next
  case (Suspended ps)
  show ?thesis
  proof (cases "ps = []")
    case True
    with assms Suspended show ?thesis by simp
  next
    case False
    obtain rr tr1 where gb: "getBundleRange E ps tr = (rr, tr1)"
      by (cases "getBundleRange E ps tr")
    show ?thesis
    proof (cases rr)
      case (Inl e)
      with assms Suspended False gb show ?thesis by simp
    next
      case (Inr r)
      obtain res' ps' tr2 where pb: "processBundle E ps r tr1 = (res', ps', tr2)"
        by (cases "processBundle E ps r tr1") auto
      from processBundle_rest [OF pb] have ps': "ps' = drop (range_count r) ps" .
      from getBundleRange_bounds gb Inr False have "1 \<le> range_count r" by blast
      with assms Suspended False gb Inr pb ps' show ?thesis by auto
    qed
  qed
next
  case Completed
  with assms show ?thesis by simp
qed

text \<open>
  A run of the caller: the results received, the rejection if there was one, and the
  generator and the history of external calls at the end.
\<close>

record run =
  results :: "UploadGeneratorResult list"
  failure :: "error option"
  generator_after :: generator
  history :: "event list"

text \<open>
  Modelled from the spec: the caller of the generator, which is code of the repository
  outside this module. Each produced result is a pending computation the caller must wait
  on before requesting the next, and on a failure the process stops. So the caller pulls,
  awaits, and pulls again until the generator is done, a promise rejects or
  \<^verbatim>\<open>next()\<close> throws. The recursion
  is on each resolved result; it terminates because every resolved bundle shortens
  \<^verbatim>\<open>filePairs\<close>.
\<close>

function pullAll :: "env \<Rightarrow> generator \<Rightarrow> event list \<Rightarrow> run" where
  "pullAll E g tr =
     (case generatorNext E g tr of
        (Done, g', tr') \<Rightarrow>
          \<lparr>results = [], failure = None, generator_after = g', history = tr'\<rparr>
      | (Thrown e, g', tr') \<Rightarrow>
          \<lparr>results = [], failure = Some e, generator_after = g', history = tr'\<rparr>
      | (Yield (Inl e), g', tr') \<Rightarrow>
          \<lparr>results = [], failure = Some e, generator_after = g', history = tr'\<rparr>
      | (Yield (Inr res), g', tr') \<Rightarrow>
          (let later = pullAll E g' tr' in later\<lparr>results := res # results later\<rparr>))"
  by pat_completeness auto
termination
  by (relation "measure (\<lambda>(E, g, tr). generatorSize g)")
     (auto dest: generatorNext_decreases [OF sym])

declare pullAll.simps [simp del]

section \<open>Vocabulary of the specification\<close>

text \<open>The combined size of a pair on disk, when both files can be examined.\<close>

definition pairBytes :: "env \<Rightarrow> FilePair \<Rightarrow> nat option" where
  "pairBytes E p =
     (case stat E (image_file p) of
        None \<Rightarrow> None
      | Some a \<Rightarrow> (case stat E (manifest p) of None \<Rightarrow> None | Some b \<Rightarrow> Some (a + b)))"

text \<open>
  \<open>c\<close> is the largest prefix length of the size sequence whose sum stays strictly below
  the limit.
\<close>

definition maximalPrefix :: "nat \<Rightarrow> nat list \<Rightarrow> nat \<Rightarrow> bool" where
  "maximalPrefix L szs c \<longleftrightarrow>
     c \<le> length szs \<and> sum_list (take c szs) < L \<and>
     (\<forall>k \<in> {0..length szs}. sum_list (take k szs) < L \<longrightarrow> k \<le> c)"

text \<open>
  What a pair is turned into, in terms of the collaborators alone. The history \<open>tr\<close> is
  the list of external calls made before the pair is processed; the signer is asked for
  the image record after the image has been read, and for the metadata record after the
  image record has been signed and the manifest has been read.
\<close>

definition unsignedImage :: "env \<Rightarrow> FilePair \<Rightarrow> DataItem" where
  "unsignedImage E p = createData (the (readFile E (image_file p))) imageTags"

definition imageId :: "env \<Rightarrow> event list \<Rightarrow> FilePair \<Rightarrow> string option" where
  "imageId E tr p = sign_item E (tr @ [EReadFile (image_file p)]) (unsignedImage E p)"

definition parsedManifest :: "env \<Rightarrow> FilePair \<Rightarrow> json option" where
  "parsedManifest E p =
     (case readFile E (manifest p) of None \<Rightarrow> None | Some content \<Rightarrow> json_parse E content)"

definition manifestId :: "env \<Rightarrow> event list \<Rightarrow> FilePair \<Rightarrow> json \<Rightarrow> string option" where
  "manifestId E tr p doc =
     sign_item E
       (tr @ [EReadFile (image_file p), ESignItem (unsignedImage E p), EReadFile (manifest p)])
       (getManifestDataItem E doc)"

text \<open>
  The link and the document of a pair: the image file is readable and the signer gave
  its record an id; the document is the parsed manifest of this pair, updated with the
  link built from that id; the signer gave the serialised document an id, and the
  metadata link is built from it.
\<close>

definition described :: "env \<Rightarrow> event list \<Rightarrow> FilePair \<Rightarrow> string \<Rightarrow> json \<Rightarrow> bool" where
  "described E tr p link doc \<longleftrightarrow>
     readFile E (image_file p) \<noteq> None \<and> imageId E tr p \<noteq> None \<and>
     parsedManifest E p \<noteq> None \<and>
     updateManifest (the (parsedManifest E p)) (arweaveLink (the (imageId E tr p))) = Inr doc \<and>
     manifestId E tr p doc \<noteq> None \<and>
     link = arweaveLink (the (manifestId E tr p doc))"

text \<open>
  The two records of a pair: the image record is the image item with the id the signer
  returned for it, the metadata record is the serialised document with the id the signer
  returned for it, and the image member of the document is the link of the image
  record's id.
\<close>

definition transformed ::
  "env \<Rightarrow> event list \<Rightarrow> FilePair \<Rightarrow> DataItem \<Rightarrow> DataItem \<Rightarrow> string \<Rightarrow> json \<Rightarrow> bool" where
  "transformed E tr p img man link doc \<longleftrightarrow>
     described E tr p link doc \<and>
     img = (unsignedImage E p)\<lparr>item_id := imageId E tr p\<rparr> \<and>
     man = (getManifestDataItem E doc)\<lparr>item_id := manifestId E tr p doc\<rparr> \<and>
     getMember doc ''image'' = Inr (Some (JStr (arweaveLink (the (item_id img)))))"

text \<open>
  The external calls of transforming one pair, in order: read the image, sign the image
  record, read the manifest, sign the metadata record.
\<close>

definition pairCalls :: "env \<Rightarrow> FilePair \<Rightarrow> json \<Rightarrow> event list" where
  "pairCalls E p doc =
     [EReadFile (image_file p), ESignItem (unsignedImage E p),
      EReadFile (manifest p), ESignItem (getManifestDataItem E doc)]"

fun bundleCalls :: "env \<Rightarrow> FilePair list \<Rightarrow> json list \<Rightarrow> event list" where
  "bundleCalls E (p # ps) (m # ms) = pairCalls E p m @ bundleCalls E ps ms"
| "bundleCalls E _ _ = []"

text \<open>
  Keys, links and documents are aligned with a list of pairs processed one after the
  other from the history \<open>tr\<close>: position by position, the key is the key of the pair and
  the link and the document are those of that pair.
\<close>

fun aligned ::
  "env \<Rightarrow> event list \<Rightarrow> FilePair list \<Rightarrow> string list \<Rightarrow> string list \<Rightarrow> json list \<Rightarrow> bool" where
  "aligned E tr [] [] [] [] = True"
| "aligned E tr (p # ps) (k # ks) (l # ls) (m # ms) =
     (k = key p \<and> described E tr p l m \<and> aligned E (tr @ pairCalls E p m) ps ks ls ms)"
| "aligned E tr _ _ _ _ = False"

text \<open>
  The same with the records: two records per pair, the image record immediately before
  the metadata record of the same pair.
\<close>

fun bundled ::
  "env \<Rightarrow> event list \<Rightarrow> FilePair list \<Rightarrow> string list \<Rightarrow> string list \<Rightarrow> json list \<Rightarrow>
     DataItem list \<Rightarrow> bool" where
  "bundled E tr [] [] [] [] [] = True"
| "bundled E tr (p # ps) (k # ks) (l # ls) (m # ms) (img # man # ds) =
     (k = key p \<and> transformed E tr p img man l m \<and>
      bundled E (tr @ pairCalls E p m) ps ks ls ms ds)"
| "bundled E tr _ _ _ _ _ = False"

text \<open>
  The error of the first step that fails when a pair is processed from the history
  \<open>tr\<close>, if one does: reading the image, signing its record, reading the manifest,
  parsing it, updating it, signing the metadata record.
\<close>

definition pairFailure :: "env \<Rightarrow> event list \<Rightarrow> FilePair \<Rightarrow> error option" where
  "pairFailure E tr p =
     (case readFile E (image_file p) of
        None \<Rightarrow> Some (ReadError (image_file p))
      | Some bytes \<Rightarrow>
     (case imageId E tr p of
        None \<Rightarrow> Some SigningError
      | Some iid \<Rightarrow>
     (case readFile E (manifest p) of
        None \<Rightarrow> Some (ReadError (manifest p))
      | Some content \<Rightarrow>
     (case json_parse E content of
        None \<Rightarrow> Some (ParseError (manifest p))
      | Some parsed \<Rightarrow>
     (case updateManifest parsed (arweaveLink iid) of
        Inl e \<Rightarrow> Some e
      | Inr doc \<Rightarrow>
     (case manifestId E tr p doc of
        None \<Rightarrow> Some SigningError
      | Some mid \<Rightarrow> None))))))"

text \<open>
  The error of the first library call that fails when the records \<open>ds\<close> are bundled and
  submitted from the history \<open>tr\<close>, if one does.
\<close>

definition bundleFailure :: "env \<Rightarrow> event list \<Rightarrow> DataItem list \<Rightarrow> error option" where
  "bundleFailure E tr ds =
     (if \<not> lib_call E tr (EBundleAndSignData ds) then Some BundlingError
      else if \<not> lib_call E (tr @ [EBundleAndSignData ds]) EToTransaction
        then Some BundlingError
      else if \<not> lib_call E (tr @ [EBundleAndSignData ds, EToTransaction]) ESignTransaction
        then Some SigningError
      else if \<not> lib_call E (tr @ [EBundleAndSignData ds, EToTransaction, ESignTransaction])
                 EPostTransaction
        then Some SubmissionError
      else None)"

text \<open>
  An error of a step that runs after the range has been computed: reading, parsing,
  updating, signing, bundling or submitting.
\<close>

definition downstreamError :: "error \<Rightarrow> bool" where
  "downstreamError e =
     (case e of
        ReadError f \<Rightarrow> True | ParseError f \<Rightarrow> True | TypeError \<Rightarrow> True
      | SigningError \<Rightarrow> True | BundlingError \<Rightarrow> True | SubmissionError \<Rightarrow> True
      | _ \<Rightarrow> False)"

text \<open>The three sequences of a result have the same length.\<close>

definition resultAligned :: "UploadGeneratorResult \<Rightarrow> bool" where
  "resultAligned r \<longleftrightarrow>
     length (manifestLinks r) = length (cacheKeys r) \<and>
     length (updatedManifests r) = length (cacheKeys r)"

text \<open>The sequences of all results of a run, end to end.\<close>

definition allKeys :: "UploadGeneratorResult list \<Rightarrow> string list" where
  "allKeys rs = concat (map cacheKeys rs)"

definition allLinks :: "UploadGeneratorResult list \<Rightarrow> string list" where
  "allLinks rs = concat (map manifestLinks rs)"

definition allManifests :: "UploadGeneratorResult list \<Rightarrow> json list" where
  "allManifests rs = concat (map updatedManifests rs)"

text \<open>
  The results of a run are aligned with the pending list of the generator the run starts
  from. The first result of a fresh generator is the empty one. Every later result takes
  as many pairs from the front of the pending list as it has keys, and its keys, links
  and documents are those of these pairs, processed from the history at which the range
  had been computed; the results after it are aligned with the rest of the list.
\<close>

fun runAligned ::
  "env \<Rightarrow> event list \<Rightarrow> generator \<Rightarrow> UploadGeneratorResult list \<Rightarrow> bool" where
  "runAligned E tr g [] = True"
| "runAligned E tr (Created dirname assets jwk) (res # rs) =
     (res = emptyResult \<and>
      runAligned E tr (Suspended (map (mkFilePair E dirname) assets)) rs)"
| "runAligned E tr (Suspended filePairs) (res # rs) =
     (aligned E (snd (getBundleRange E filePairs tr))
        (take (length (cacheKeys res)) filePairs)
        (cacheKeys res) (manifestLinks res) (updatedManifests res) \<and>
      runAligned E (snd (snd (generatorNext E (Suspended filePairs) tr)))
        (Suspended (drop (length (cacheKeys res)) filePairs)) rs)"
| "runAligned E tr Completed (res # rs) = False"

section \<open>Sample collaborators\<close>

text \<open>
  A file system given by two tables, a parser that knows one document, a serialiser that
  lists the member names of an object, a signer that is constructed from any object and
  derives the id from the payload, and a network that accepts everything.
\<close>

definition sampleDocument :: json where
  "sampleDocument =
     JObj [(''name'', JStr ''Asset''), (''image'', JStr ''image.png''),
           (''properties'', JObj [(''files'', JArr [] []), (''creators'', JArr [] [])])]"

definition sampleParse :: "string \<Rightarrow> json option" where
  "sampleParse s = (if s = ''document'' then Some sampleDocument else None)"

fun sampleStringify :: "json \<Rightarrow> string" where
  "sampleStringify (JObj ps) = concat (map fst ps)"
| "sampleStringify _ = []"

definition sampleEnv :: "(path \<Rightarrow> nat option) \<Rightarrow> (path \<Rightarrow> string option) \<Rightarrow> env" where
  "sampleEnv st rd =
     \<lparr>stat = st, readFile = rd, json_parse = sampleParse, json_stringify = sampleStringify,
      sign_item = (\<lambda>h d. Some (''tx-'' @ payload d)), lib_call = (\<lambda>h ev. True),
      path_join = (\<lambda>d f. d @ ''/'' @ f), EXTENSION_PNG = ''.png'',
      ArweaveSigner_new = (\<lambda>jwk. case jwk of JObj ps \<Rightarrow> True | _ \<Rightarrow> False),
      getArweave_new = True\<rparr>"

definition samplePair :: "string \<Rightarrow> FilePair" where
  "samplePair a = \<lparr>key = a, image_file = a @ ''.png'', manifest = a @ ''.json''\<rparr>"

text \<open>Every image file has \<open>i\<close> bytes and every other file \<open>m\<close> bytes.\<close>

definition uniformStat :: "nat \<Rightarrow> nat \<Rightarrow> path \<Rightarrow> nat option" where
  "uniformStat i m f = (if drop (length f - 4) f = ''.png'' then Some i else Some m)"

definition noFiles :: "path \<Rightarrow> string option" where
  "noFiles f = None"

definition sizeTable :: "path \<Rightarrow> nat option" where
  "sizeTable f =
     (if f = ''a.png'' then Some 250 else if f = ''a.json'' then Some 50
      else if f = ''b.png'' then Some 450 else if f = ''b.json'' then Some 50
      else if f = ''c.png'' then Some 350 else if f = ''c.json'' then Some 50
      else None)"

text \<open>Files for a whole run: every image holds the same bytes, every manifest the sample
  document; in the second table the manifest of asset 1 is not a document.\<close>

definition sampleFiles :: "path \<Rightarrow> string option" where
  "sampleFiles f = (if drop (length f - 4) f = ''.png'' then Some ''pixels'' else Some ''document'')"

definition brokenFiles :: "path \<Rightarrow> string option" where
  "brokenFiles f = (if f = ''assets/1.json'' then Some ''broken'' else sampleFiles f)"

text \<open>
  A collection of three assets whose pairs have 90001000 bytes each: two of them fit
  under \<open>BUNDLE_SIZE_BYTE_LIMIT\<close>, three do not.
\<close>

definition sampleRunEnv :: env where
  "sampleRunEnv = sampleEnv (uniformStat 90000000 1000) sampleFiles"

definition brokenRunEnv :: env where
  "brokenRunEnv = sampleEnv (uniformStat 90000000 1000) brokenFiles"

definition sampleAssets :: "string list" where
  "sampleAssets = [''0'', ''1'', ''2'']"

text \<open>A key the sample signer accepts, a key it refuses, and a network that is down.\<close>

definition sampleKey :: json where
  "sampleKey = JObj [(''kty'', JStr ''RSA'')]"

definition offlineRunEnv :: env where
  "offlineRunEnv = sampleRunEnv\<lparr>lib_call := (\<lambda>h ev. ev \<noteq> EPostTransaction)\<rparr>"

text \<open>The sample document after the transformation of a pair whose image has the id
  \<^verbatim>\<open>tx-pixels\<close>.\<close>

definition sampleUpdated :: json where
  "sampleUpdated =
     JObj [(''name'', JStr ''Asset''), (''image'', JStr ''https://arweave.net/tx-pixels''),
           (''properties'',
            JObj [(''files'', JArr [JObj [(''type'', JStr ''image/png''),
                                          (''uri'', JStr ''https://arweave.net/tx-pixels'')]] []),
                  (''creators'', JArr [] [])])]"

text \<open>The two records of a sample pair, with the ids of the sample signer.\<close>

definition sampleImageRecord :: DataItem where
  "sampleImageRecord =
     \<lparr>payload = ''pixels'',
      tags = [(''App-Name'', ''Metaplex Candy Machine''), (''Content-Type'', ''image/png'')],
      item_id = Some ''tx-pixels''\<rparr>"

definition sampleManifestRecord :: DataItem where
  "sampleManifestRecord =
     \<lparr>payload = ''nameimageproperties'',
      tags = [(''App-Name'', ''Metaplex Candy Machine''),
              (''Content-Type'', ''application/json'')],
      item_id = Some ''tx-nameimageproperties''\<rparr>"

section \<open>Properties of the range selector\<close>

lemma filePairSize_known:
  "pairBytes E p = Some s \<Longrightarrow>
     filePairSize E p tr = (Inr s, tr @ [EStat (image_file p), EStat (manifest p)])"
  by (auto simp: pairBytes_def filePairSize_def split: option.splits)

lemma loop_started:
  assumes "map (pairBytes E) ps = map Some szs" and "t < L" and "0 < r"
  shows "\<exists>c. fst (bundleRangeLoop L E t r ps tr) =
              Inr \<lparr>range_count = r + c, size_bytes = t + sum_list (take c szs)\<rparr> \<and>
            c \<le> length szs \<and> t + sum_list (take c szs) < L \<and>
            (\<forall>k \<le> length szs. t + sum_list (take k szs) < L \<longrightarrow> k \<le> c)"
  using assms
proof (induction ps arbitrary: t r szs tr)
  case Nil
  then show ?case by simp
next
  case (Cons p ps)
  then obtain s szs' where szs: "szs = s # szs'" and ps: "pairBytes E p = Some s"
    and rest: "map (pairBytes E) ps = map Some szs'"
    by (cases szs) auto
  define tr' where "tr' = tr @ [EStat (image_file p), EStat (manifest p)]"
  have fps: "filePairSize E p tr = (Inr s, tr')"
    unfolding tr'_def by (rule filePairSize_known [OF ps])
  show ?case
  proof (cases "L \<le> t + s")
    case True
    have "\<forall>k \<le> length szs. t + sum_list (take k szs) < L \<longrightarrow> k \<le> 0"
    proof (intro allI impI)
      fix k assume "k \<le> length szs" and lt: "t + sum_list (take k szs) < L"
      show "k \<le> 0"
      proof (cases k)
        case 0 then show ?thesis by simp
      next
        case (Suc k')
        with lt szs True show ?thesis by simp
      qed
    qed
    with True Cons.prems(2,3) fps show ?thesis
      by (intro exI [of _ 0]) simp
  next
    case False
    then have lt: "t + s < L" by simp
    have "0 < r + 1" by simp
    from Cons.IH [OF rest lt this, of tr'] obtain c where
      c: "fst (bundleRangeLoop L E (t + s) (r + 1) ps tr') =
            Inr \<lparr>range_count = r + 1 + c, size_bytes = t + s + sum_list (take c szs')\<rparr>"
      "c \<le> length szs'" "t + s + sum_list (take c szs') < L"
      "\<forall>k \<le> length szs'. t + s + sum_list (take k szs') < L \<longrightarrow> k \<le> c"
      by blast
    have "\<forall>k \<le> length szs. t + sum_list (take k szs) < L \<longrightarrow> k \<le> Suc c"
    proof (intro allI impI)
      fix k assume kl: "k \<le> length szs" and klt: "t + sum_list (take k szs) < L"
      show "k \<le> Suc c"
      proof (cases k)
        case 0 then show ?thesis by simp
      next
        case (Suc k')
        with kl klt szs c(4) show ?thesis by (simp add: add.assoc)
      qed
    qed
    with c False fps szs show ?thesis
      by (intro exI [of _ "Suc c"]) (simp add: add.assoc)
  qed
qed

lemma loop_sizes_only:
  assumes "map (pairBytes E1) ps1 = map Some szs" and "map (pairBytes E2) ps2 = map Some szs"
    and "0 < r"
  shows "fst (bundleRangeLoop L E1 t r ps1 tr1) = fst (bundleRangeLoop L E2 t r ps2 tr2)"
  using assms
proof (induction szs arbitrary: ps1 ps2 t r tr1 tr2)
  case Nil
  then show ?case by simp
next
  case (Cons s szs)
  then obtain p1 ps1' p2 ps2' where
    l1: "ps1 = p1 # ps1'" "pairBytes E1 p1 = Some s" "map (pairBytes E1) ps1' = map Some szs" and
    l2: "ps2 = p2 # ps2'" "pairBytes E2 p2 = Some s" "map (pairBytes E2) ps2' = map Some szs"
    by (cases ps1; cases ps2) auto
  have "0 < r + 1" by simp
  from Cons.IH [OF l1(3) l2(3) this]
  have "fst (bundleRangeLoop L E1 (t + s) (r + 1) ps1'
               (tr1 @ [EStat (image_file p1), EStat (manifest p1)])) =
        fst (bundleRangeLoop L E2 (t + s) (r + 1) ps2'
               (tr2 @ [EStat (image_file p2), EStat (manifest p2)]))" .
  with l1 l2 Cons.prems(3) show ?case
    by (simp add: filePairSize_known)
qed

text \<open>
  Claim C1. For every byte limit and every list of pairs whose files can all be examined,
  with \<open>szs\<close> the combined sizes of the pairs: when the first pair alone reaches the
  limit, the selector fails with \<open>OversizePair\<close> for the key and the size of that pair;
  otherwise it returns the largest prefix length whose size sum is strictly below the
  limit, together with that sum, and the length is at least one when the list is not
  empty. The limit of the source is the constant \<open>BUNDLE_SIZE_BYTE_LIMIT\<close>; for the empty
  list the limit has to be positive, as that constant is.
\<close>

theorem getBundleRange_maximal_prefix:
  assumes "map (pairBytes E) ps = map Some szs" and "ps = [] \<longrightarrow> 0 < L"
  shows "if szs \<noteq> [] \<and> L \<le> hd szs
         then fst (getBundleRangeWith L E ps tr) = Inl (OversizePair (key (hd ps)) (hd szs))
         else \<exists>c. fst (getBundleRangeWith L E ps tr) =
                    Inr \<lparr>range_count = c, size_bytes = sum_list (take c szs)\<rparr> \<and>
                  maximalPrefix L szs c \<and> (ps \<noteq> [] \<longrightarrow> 1 \<le> c)"
proof (cases ps)
  case Nil
  with assms show ?thesis
    by (simp add: getBundleRangeWith_def maximalPrefix_def)
next
  case (Cons p ps')
  with assms(1) obtain s szs' where szs: "szs = s # szs'" and ps: "pairBytes E p = Some s"
    and rest: "map (pairBytes E) ps' = map Some szs'"
    by (cases szs) auto
  define tr' where "tr' = tr @ [EStat (image_file p), EStat (manifest p)]"
  have fps: "filePairSize E p tr = (Inr s, tr')"
    unfolding tr'_def by (rule filePairSize_known [OF ps])
  show ?thesis
  proof (cases "L \<le> s")
    case True
    with Cons szs fps show ?thesis by (simp add: getBundleRangeWith_def)
  next
    case False
    then have lt: "0 + s < L" by simp
    have "0 < (1::nat)" by simp
    from loop_started [OF rest lt this, of tr'] obtain c where
      c: "fst (bundleRangeLoop L E (0 + s) 1 ps' tr') =
            Inr \<lparr>range_count = 1 + c, size_bytes = 0 + s + sum_list (take c szs')\<rparr>"
      "c \<le> length szs'" "0 + s + sum_list (take c szs') < L"
      "\<forall>k \<le> length szs'. 0 + s + sum_list (take k szs') < L \<longrightarrow> k \<le> c"
      by blast
    have "\<forall>k \<in> {0..length szs}. sum_list (take k szs) < L \<longrightarrow> k \<le> Suc c"
    proof (intro ballI impI)
      fix k assume kl: "k \<in> {0..length szs}" and klt: "sum_list (take k szs) < L"
      show "k \<le> Suc c"
      proof (cases k)
        case 0 then show ?thesis by simp
      next
        case (Suc k')
        with kl klt szs c(4) show ?thesis by simp
      qed
    qed
    with c False fps szs Cons
    have "\<exists>c. fst (getBundleRangeWith L E ps tr) =
                    Inr \<lparr>range_count = c, size_bytes = sum_list (take c szs)\<rparr> \<and>
                  maximalPrefix L szs c \<and> (ps \<noteq> [] \<longrightarrow> 1 \<le> c)"
      by (intro exI [of _ "Suc c"]) (simp add: getBundleRangeWith_def maximalPrefix_def)
    with False szs show ?thesis by simp
  qed
qed

theorem getBundleRange_maximal_prefix_witness:
  "map (pairBytes (sampleEnv sizeTable noFiles))
       [samplePair ''a'', samplePair ''b'', samplePair ''c''] = map Some [300, 500, 400] \<and>
   fst (getBundleRangeWith 1000 (sampleEnv sizeTable noFiles)
          [samplePair ''a'', samplePair ''b'', samplePair ''c''] []) =
     Inr \<lparr>range_count = 2, size_bytes = 800\<rparr> \<and>
   maximalPrefix 1000 [300, 500, 400] 2"
proof -
  have h: "map (pairBytes (sampleEnv sizeTable noFiles))
             [samplePair ''a'', samplePair ''b'', samplePair ''c''] = map Some [300, 500, 400]"
    by (simp add: pairBytes_def sampleEnv_def sizeTable_def samplePair_def)
  have e: "fst (getBundleRangeWith 1000 (sampleEnv sizeTable noFiles)
          [samplePair ''a'', samplePair ''b'', samplePair ''c''] []) =
     Inr \<lparr>range_count = 2, size_bytes = 800\<rparr>"
    by (simp add: getBundleRangeWith_def filePairSize_def sampleEnv_def sizeTable_def
        samplePair_def)
  from getBundleRange_maximal_prefix [OF h, of 1000 "[]"] e
  have "maximalPrefix 1000 [300, 500, 400] 2"
    by (auto simp: numeral_2_eq_2 split: if_splits)
  with h e show ?thesis by simp
qed

text \<open>
  Claim C2, as the code has it. When the first pending pair alone meets or exceeds
  \<open>BUNDLE_SIZE_BYTE_LIMIT\<close>, \<open>getBundleRange\<close> returns no range at all: it fails with
  \<open>OversizePair\<close> for the key and the size of that pair, after examining only the two
  files of that pair.
\<close>

theorem getBundleRange_oversize_fails:
  assumes "pairBytes E p = Some s" and "BUNDLE_SIZE_BYTE_LIMIT \<le> s"
  shows "getBundleRange E (p # ps) tr =
           (Inl (OversizePair (key p) s), tr @ [EStat (image_file p), EStat (manifest p)])"
  using assms
  by (simp add: getBundleRange_def getBundleRangeWith_def filePairSize_known)

theorem getBundleRange_oversize_fails_witness:
  "pairBytes (sampleEnv (uniformStat 200000000 500) noFiles) (samplePair ''0'') = Some 200000500 \<and>
   BUNDLE_SIZE_BYTE_LIMIT \<le> 200000500 \<and>
   getBundleRange (sampleEnv (uniformStat 200000000 500) noFiles)
       [samplePair ''0'', samplePair ''1''] [] =
     (Inl (OversizePair ''0'' 200000500), [EStat ''0.png'', EStat ''0.json''])"
proof -
  have h1: "pairBytes (sampleEnv (uniformStat 200000000 500) noFiles) (samplePair ''0'')
              = Some 200000500"
    by (simp add: pairBytes_def sampleEnv_def uniformStat_def samplePair_def)
  have h2: "BUNDLE_SIZE_BYTE_LIMIT \<le> 200000500"
    by (simp add: BUNDLE_SIZE_BYTE_LIMIT_def)
  from getBundleRange_oversize_fails [OF h1 h2, of "[samplePair ''1'']" "[]"] h1 h2
  show ?thesis by (simp add: samplePair_def)
qed

text \<open>
  Claim C2, as stated, fails: for a single pending pair of 200000500 bytes the result is
  the \<open>OversizePair\<close> error, not a range of count one.
\<close>

theorem getBundleRange_oversize_counterexample:
  "fst (getBundleRange (sampleEnv (uniformStat 200000000 500) noFiles) [samplePair ''0''] []) =
     Inl (OversizePair ''0'' 200000500)"
  by (simp add: getBundleRange_def getBundleRangeWith_def filePairSize_def sampleEnv_def
      uniformStat_def samplePair_def BUNDLE_SIZE_BYTE_LIMIT_def)

text \<open>
  Claim C6. With a byte limit of 1000 and three pending pairs of 400 bytes each, the
  selector returns count 2 with 800 bytes; on the list without those two pairs it returns
  count 1. The limit of the scenario is passed to the loop of \<open>getBundleRange\<close>.
\<close>

theorem getBundleRange_scenario_400:
  "fst (getBundleRangeWith 1000 (sampleEnv (uniformStat 300 100) noFiles)
          [samplePair ''0'', samplePair ''1'', samplePair ''2''] tr) =
     Inr \<lparr>range_count = 2, size_bytes = 800\<rparr> \<and>
   fst (getBundleRangeWith 1000 (sampleEnv (uniformStat 300 100) noFiles)
          (drop 2 [samplePair ''0'', samplePair ''1'', samplePair ''2'']) tr') =
     Inr \<lparr>range_count = 1, size_bytes = 400\<rparr>"
  by (simp add: getBundleRangeWith_def filePairSize_def sampleEnv_def uniformStat_def
      samplePair_def)

text \<open>
  Claim C10. Two pending lists whose pairs have the same combined sizes, position by
  position, under any two file systems, keys and paths: \<open>getBundleRange\<close> either returns
  the same range (count and byte total) for both, or fails for both with \<open>OversizePair\<close>
  for the same size, each error naming the first key of its own list.
\<close>

theorem getBundleRange_depends_on_sizes_only:
  assumes "map (pairBytes E1) ps1 = map Some szs" and "map (pairBytes E2) ps2 = map Some szs"
  shows "(\<exists>r. fst (getBundleRange E1 ps1 tr1) = Inr r \<and> fst (getBundleRange E2 ps2 tr2) = Inr r) \<or>
         (\<exists>s. fst (getBundleRange E1 ps1 tr1) = Inl (OversizePair (key (hd ps1)) s) \<and>
              fst (getBundleRange E2 ps2 tr2) = Inl (OversizePair (key (hd ps2)) s))"
proof (cases szs)
  case Nil
  with assms show ?thesis by (simp add: getBundleRange_def getBundleRangeWith_def)
next
  case (Cons s szs')
  with assms obtain p1 ps1' p2 ps2' where
    l1: "ps1 = p1 # ps1'" "pairBytes E1 p1 = Some s" "map (pairBytes E1) ps1' = map Some szs'" and
    l2: "ps2 = p2 # ps2'" "pairBytes E2 p2 = Some s" "map (pairBytes E2) ps2' = map Some szs'"
    by (cases ps1; cases ps2) auto
  show ?thesis
  proof (cases "BUNDLE_SIZE_BYTE_LIMIT \<le> s")
    case True
    with l1 l2 show ?thesis
      by (simp add: getBundleRange_def getBundleRangeWith_def filePairSize_known)
  next
    case False
    have pos: "0 < (1::nat)" by simp
    define L where "L = BUNDLE_SIZE_BYTE_LIMIT"
    have lt: "s < L" using False by (simp add: L_def)
    have eq: "fst (bundleRangeLoop L E1 s 1 ps1'
                     (tr1 @ [EStat (image_file p1), EStat (manifest p1)])) =
              fst (bundleRangeLoop L E2 s 1 ps2'
                     (tr2 @ [EStat (image_file p2), EStat (manifest p2)]))"
      by (rule loop_sizes_only [OF l1(3) l2(3) pos])
    from loop_started [OF l1(3) lt pos] obtain c where
      "fst (bundleRangeLoop L E1 s 1 ps1' (tr1 @ [EStat (image_file p1), EStat (manifest p1)])) =
              Inr \<lparr>range_count = 1 + c, size_bytes = s + sum_list (take c szs')\<rparr>"
      by blast
    with eq lt l1 l2 show ?thesis
      by (simp add: getBundleRange_def getBundleRangeWith_def filePairSize_known L_def)
  qed
qed

theorem getBundleRange_depends_on_sizes_only_witness:
  "map (pairBytes (sampleEnv (uniformStat 90000000 1000) noFiles))
       [samplePair ''0'', samplePair ''1'', samplePair ''2''] =
     map Some [90001000, 90001000, 90001000] \<and>
   map (pairBytes (sampleEnv (uniformStat 50000000 40001000) noFiles))
       [samplePair ''x'', samplePair ''y'', samplePair ''z''] =
     map Some [90001000, 90001000, 90001000] \<and>
   fst (getBundleRange (sampleEnv (uniformStat 90000000 1000) noFiles)
          [samplePair ''0'', samplePair ''1'', samplePair ''2''] []) =
     Inr \<lparr>range_count = 2, size_bytes = 180002000\<rparr> \<and>
   fst (getBundleRange (sampleEnv (uniformStat 50000000 40001000) noFiles)
          [samplePair ''x'', samplePair ''y'', samplePair ''z''] []) =
     Inr \<lparr>range_count = 2, size_bytes = 180002000\<rparr>"
proof -
  have h1: "map (pairBytes (sampleEnv (uniformStat 90000000 1000) noFiles))
       [samplePair ''0'', samplePair ''1'', samplePair ''2''] =
     map Some [90001000, 90001000, 90001000]"
    by (simp add: pairBytes_def sampleEnv_def uniformStat_def samplePair_def)
  have h2: "map (pairBytes (sampleEnv (uniformStat 50000000 40001000) noFiles))
       [samplePair ''x'', samplePair ''y'', samplePair ''z''] =
     map Some [90001000, 90001000, 90001000]"
    by (simp add: pairBytes_def sampleEnv_def uniformStat_def samplePair_def)
  have e: "fst (getBundleRange (sampleEnv (uniformStat 90000000 1000) noFiles)
          [samplePair ''0'', samplePair ''1'', samplePair ''2''] []) =
     Inr \<lparr>range_count = 2, size_bytes = 180002000\<rparr>"
    by (simp add: getBundleRange_def getBundleRangeWith_def filePairSize_def sampleEnv_def
        uniformStat_def samplePair_def BUNDLE_SIZE_BYTE_LIMIT_def)
  from getBundleRange_depends_on_sizes_only [OF h1 h2, of "[]" "[]"] e h1 h2
  show ?thesis by auto
qed

section \<open>Properties of the pair transformer and of the bundle\<close>

lemma map_of_assignProp: "map_of (assignProp k v ps) = (map_of ps)(k \<mapsto> v)"
  by (induction ps) (auto simp: fun_upd_twist)

lemma assignMember_error: "assignMember j k v = Inl e \<Longrightarrow> e = TypeError"
  by (cases j) auto

lemma getMember_error: "getMember j k = Inl e \<Longrightarrow> e = TypeError"
  by (cases j) auto

lemma updateManifest_error: "updateManifest parsed link = Inl e \<Longrightarrow> e = TypeError"
  by (auto simp: updateManifest_def dest: assignMember_error getMember_error
      split: sum.splits option.splits)

lemma updateManifest_image:
  assumes "updateManifest parsed link = Inr doc"
  shows "getMember doc ''image'' = Inr (Some (JStr link))"
proof (cases parsed)
  case (JObj ps)
  with assms show ?thesis
    by (auto simp: updateManifest_def map_of_assignProp split: sum.splits option.splits)
next
  case (JArr xs ps)
  with assms show ?thesis
    by (auto simp: updateManifest_def map_of_assignProp split: sum.splits option.splits)
next
  case JNull
  with assms show ?thesis by (simp add: updateManifest_def)
next
  case (JBool b)
  with assms show ?thesis by (simp add: updateManifest_def)
next
  case (JNum n)
  with assms show ?thesis by (simp add: updateManifest_def)
next
  case (JStr t)
  with assms show ?thesis by (simp add: updateManifest_def)
qed

lemma getImageDataItem_ok:
  assumes "getImageDataItem E f tr = (Inr d, tr')"
  shows "\<exists>bytes. readFile E f = Some bytes \<and> d = createData bytes imageTags \<and>
           tr' = tr @ [EReadFile f]"
  using assms by (auto simp: getImageDataItem_def split: option.splits)

lemma signDataItem_ok:
  assumes "signDataItem E d tr = (Inr d', tr')"
  shows "\<exists>i. sign_item E tr d = Some i \<and> d' = d\<lparr>item_id := Some i\<rparr> \<and>
           tr' = tr @ [ESignItem d]"
  using assms by (auto simp: signDataItem_def split: option.splits)

lemma getUpdatedManifest_ok:
  assumes "getUpdatedManifest E f link tr = (Inr doc, tr')"
  shows "\<exists>content parsed. readFile E f = Some content \<and> json_parse E content = Some parsed \<and>
           updateManifest parsed link = Inr doc \<and> tr' = tr @ [EReadFile f]"
  using assms by (auto simp: getUpdatedManifest_def split: option.splits)

lemma processBundleFilePair_ok:
  assumes "processBundleFilePair E acc p tr = (Inr acc', tr')"
  shows "\<exists>img man l m. transformed E tr p img man l m \<and>
           acc' = acc\<lparr>cacheKeys := cacheKeys acc @ [key p],
                      dataItems := dataItems acc @ [img, man],
                      manifestLinks := manifestLinks acc @ [l],
                      updatedManifests := updatedManifests acc @ [m]\<rparr> \<and>
           tr' = tr @ pairCalls E p m"
proof -
  from assms obtain d0 tr1 where a1: "getImageDataItem E (image_file p) tr = (Inr d0, tr1)"
    by (auto simp: processBundleFilePair_def split: prod.splits sum.splits)
  from assms a1 obtain img tr2 where a2: "signDataItem E d0 tr1 = (Inr img, tr2)"
    by (auto simp: processBundleFilePair_def split: prod.splits sum.splits)
  from assms a1 a2 obtain m tr3 where
    a3: "getUpdatedManifest E (manifest p) (arweaveLink (the (item_id img))) tr2 = (Inr m, tr3)"
    by (auto simp: processBundleFilePair_def Let_def split: prod.splits sum.splits)
  from assms a1 a2 a3 obtain man tr4 where
    a4: "signDataItem E (getManifestDataItem E m) tr3 = (Inr man, tr4)"
    by (auto simp: processBundleFilePair_def Let_def split: prod.splits sum.splits)
  from assms a1 a2 a3 a4 have
    acc': "acc' = acc\<lparr>cacheKeys := cacheKeys acc @ [key p],
                      dataItems := dataItems acc @ [img, man],
                      manifestLinks := manifestLinks acc @ [arweaveLink (the (item_id man))],
                      updatedManifests := updatedManifests acc @ [m]\<rparr>"
    and tr': "tr' = tr4"
    by (auto simp: processBundleFilePair_def Let_def)
  from getImageDataItem_ok [OF a1] obtain bytes where
    b1: "readFile E (image_file p) = Some bytes" "d0 = createData bytes imageTags"
      "tr1 = tr @ [EReadFile (image_file p)]"
    by blast
  then have d0: "d0 = unsignedImage E p" by (simp add: unsignedImage_def)
  from signDataItem_ok [OF a2] obtain i where
    b2: "sign_item E tr1 d0 = Some i" "img = d0\<lparr>item_id := Some i\<rparr>" "tr2 = tr1 @ [ESignItem d0]"
    by blast
  then have iid: "imageId E tr p = Some i" using b1(3) d0 by (simp add: imageId_def)
  from getUpdatedManifest_ok [OF a3] obtain content parsed where
    b3: "readFile E (manifest p) = Some content" "json_parse E content = Some parsed"
      "updateManifest parsed (arweaveLink (the (item_id img))) = Inr m"
      "tr3 = tr2 @ [EReadFile (manifest p)]"
    by blast
  then have pm: "parsedManifest E p = Some parsed" by (simp add: parsedManifest_def)
  from signDataItem_ok [OF a4] obtain j where
    b4: "sign_item E tr3 (getManifestDataItem E m) = Some j"
      "man = (getManifestDataItem E m)\<lparr>item_id := Some j\<rparr>"
      "tr4 = tr3 @ [ESignItem (getManifestDataItem E m)]"
    by blast
  have tr3: "tr3 = tr @ [EReadFile (image_file p), ESignItem (unsignedImage E p),
                         EReadFile (manifest p)]"
    using b1(3) b2(3) b3(4) d0 by simp
  then have mid: "manifestId E tr p m = Some j" using b4(1) by (simp add: manifestId_def)
  have idimg: "item_id img = Some i" using b2(2) by simp
  have "described E tr p (arweaveLink (the (item_id man))) m"
    using b1(1) iid pm b3(3) mid b4(2) idimg by (simp add: described_def)
  moreover have "getMember m ''image'' = Inr (Some (JStr (arweaveLink (the (item_id img)))))"
    by (rule updateManifest_image [OF b3(3)])
  ultimately have "transformed E tr p img man (arweaveLink (the (item_id man))) m"
    using b2(2) d0 iid b4(2) mid by (simp add: transformed_def)
  moreover have "tr' = tr @ pairCalls E p m"
    using tr' b4(3) tr3 by (simp add: pairCalls_def)
  ultimately show ?thesis using acc' by blast
qed

lemma processBundleFilePair_fails:
  assumes "pairFailure E tr p = Some e"
  shows "fst (processBundleFilePair E acc p tr) = Inl e"
  using assms
  by (auto simp: pairFailure_def processBundleFilePair_def getImageDataItem_def
      signDataItem_def getUpdatedManifest_def imageId_def manifestId_def unsignedImage_def
      Let_def split: option.splits sum.splits)

lemma reduceFilePairs_ok:
  assumes "reduceFilePairs E acc ps tr = (Inr acc', tr')"
  shows "\<exists>ks ls ms ds. bundled E tr ps ks ls ms ds \<and>
           cacheKeys acc' = cacheKeys acc @ ks \<and> manifestLinks acc' = manifestLinks acc @ ls \<and>
           updatedManifests acc' = updatedManifests acc @ ms \<and>
           dataItems acc' = dataItems acc @ ds \<and> tr' = tr @ bundleCalls E ps ms"
  using assms
proof (induction ps arbitrary: acc tr)
  case Nil
  then show ?case by (intro exI [of _ "[]"]) simp
next
  case (Cons p ps)
  from Cons.prems obtain acc1 tr1 where
    s1: "processBundleFilePair E acc p tr = (Inr acc1, tr1)" and
    s2: "reduceFilePairs E acc1 ps tr1 = (Inr acc', tr')"
    by (auto split: prod.splits sum.splits)
  from processBundleFilePair_ok [OF s1] obtain img man l m where
    t: "transformed E tr p img man l m" and
    acc1: "acc1 = acc\<lparr>cacheKeys := cacheKeys acc @ [key p],
                      dataItems := dataItems acc @ [img, man],
                      manifestLinks := manifestLinks acc @ [l],
                      updatedManifests := updatedManifests acc @ [m]\<rparr>" and
    tr1: "tr1 = tr @ pairCalls E p m"
    by blast
  from Cons.IH [OF s2] obtain ks ls ms ds where
    r: "bundled E tr1 ps ks ls ms ds" "cacheKeys acc' = cacheKeys acc1 @ ks"
      "manifestLinks acc' = manifestLinks acc1 @ ls"
      "updatedManifests acc' = updatedManifests acc1 @ ms"
      "dataItems acc' = dataItems acc1 @ ds" "tr' = tr1 @ bundleCalls E ps ms"
    by blast
  show ?case
    apply (rule exI [of _ "key p # ks"], rule exI [of _ "l # ls"], rule exI [of _ "m # ms"],
        rule exI [of _ "img # man # ds"])
    using t acc1 tr1 r by simp
qed

lemma reduceFilePairs_append:
  "reduceFilePairs E acc (xs @ ys) tr =
     (case reduceFilePairs E acc xs tr of
        (Inl e, tr') \<Rightarrow> (Inl e, tr')
      | (Inr acc', tr') \<Rightarrow> reduceFilePairs E acc' ys tr')"
  by (induction xs arbitrary: acc tr) (auto split: prod.splits sum.splits)

lemma reduceFilePairs_fails_at:
  assumes "i < length ps"
    and "fst (reduceFilePairs E acc (take i ps) tr) = Inr acc1"
    and "pairFailure E (snd (reduceFilePairs E acc (take i ps) tr)) (ps ! i) = Some e"
  shows "fst (reduceFilePairs E acc ps tr) = Inl e"
proof -
  obtain tr1 where pre: "reduceFilePairs E acc (take i ps) tr = (Inr acc1, tr1)"
    using assms(2) by (cases "reduceFilePairs E acc (take i ps) tr") auto
  with assms(3) have "pairFailure E tr1 (ps ! i) = Some e" by simp
  from processBundleFilePair_fails [OF this, of acc1]
  obtain tr2 where f: "processBundleFilePair E acc1 (ps ! i) tr1 = (Inl e, tr2)"
    by (cases "processBundleFilePair E acc1 (ps ! i) tr1") auto
  have "ps = take i ps @ (ps ! i) # drop (Suc i) ps"
    using assms(1) by (rule id_take_nth_drop)
  then have "reduceFilePairs E acc ps tr =
      reduceFilePairs E acc (take i ps @ (ps ! i) # drop (Suc i) ps) tr" by simp
  also have "fst \<dots> = Inl e"
    unfolding reduceFilePairs_append using pre f by simp
  finally show ?thesis .
qed

lemma bundled_shape:
  "bundled E tr ps ks ls ms ds \<Longrightarrow>
     ks = map key ps \<and> length ls = length ps \<and> length ms = length ps \<and>
     length ds = 2 * length ps"
  by (induction E tr ps ks ls ms ds rule: bundled.induct) auto

lemma bundled_aligned:
  "bundled E tr ps ks ls ms ds \<Longrightarrow> aligned E tr ps ks ls ms"
  by (induction E tr ps ks ls ms ds rule: bundled.induct) (auto simp: transformed_def)

lemma processBundle_resolved:
  assumes "processBundle E fps r tr = (Inr res, fps', tr')"
  shows "\<exists>ds. bundled E tr (take (range_count r) fps) (cacheKeys res) (manifestLinks res)
                 (updatedManifests res) ds \<and>
              tr' = tr @ bundleCalls E (take (range_count r) fps) (updatedManifests res) @
                      [EBundleAndSignData ds, EToTransaction, ESignTransaction, EPostTransaction]"
proof -
  from assms obtain acc tr1 where
    red: "reduceFilePairs E emptyProcessed (take (range_count r) fps) tr = (Inr acc, tr1)"
    by (auto simp: processBundle_def Let_def split: prod.splits sum.splits)
  from assms red have
    res: "res = \<lparr>cacheKeys = cacheKeys acc, manifestLinks = manifestLinks acc,
                 updatedManifests = updatedManifests acc\<rparr>" and
    tr': "tr' = tr1 @ [EBundleAndSignData (dataItems acc), EToTransaction, ESignTransaction,
                       EPostTransaction]"
    by (auto simp: processBundle_def Let_def libStep_def split: prod.splits option.splits if_splits)
  from reduceFilePairs_ok [OF red] res tr' show ?thesis
    by (auto simp: emptyProcessed_def)
qed

lemma processBundle_pair_fails:
  assumes "i < length (take (range_count r) fps)"
    and "fst (reduceFilePairs E emptyProcessed (take i (take (range_count r) fps)) tr) = Inr acc"
    and "pairFailure E (snd (reduceFilePairs E emptyProcessed
                               (take i (take (range_count r) fps)) tr))
           (take (range_count r) fps ! i) = Some e"
  shows "fst (processBundle E fps r tr) = Inl e"
proof -
  from reduceFilePairs_fails_at [OF assms]
  have "fst (reduceFilePairs E emptyProcessed (take (range_count r) fps) tr) = Inl e" .
  then show ?thesis
    by (cases "reduceFilePairs E emptyProcessed (take (range_count r) fps) tr")
       (simp add: processBundle_def Let_def)
qed

lemma processBundle_bundle_fails:
  assumes "fst (reduceFilePairs E emptyProcessed (take (range_count r) fps) tr) = Inr acc"
    and "bundleFailure E (snd (reduceFilePairs E emptyProcessed (take (range_count r) fps) tr))
           (dataItems acc) = Some e"
  shows "fst (processBundle E fps r tr) = Inl e"
  using assms
  by (cases "reduceFilePairs E emptyProcessed (take (range_count r) fps) tr")
     (auto simp: processBundle_def Let_def libStep_def bundleFailure_def split: if_splits)

lemma processBundleFilePair_error:
  "processBundleFilePair E acc p tr = (Inl e, tr') \<Longrightarrow> downstreamError e"
  by (auto simp: processBundleFilePair_def getImageDataItem_def signDataItem_def
      getUpdatedManifest_def downstreamError_def Let_def
      dest: updateManifest_error split: prod.splits sum.splits option.splits)

lemma reduceFilePairs_error:
  "reduceFilePairs E acc ps tr = (Inl e, tr') \<Longrightarrow> downstreamError e"
  by (induction ps arbitrary: acc tr)
     (auto dest: processBundleFilePair_error split: prod.splits sum.splits)

lemma processBundle_error:
  "processBundle E fps r tr = (Inl e, fps', tr') \<Longrightarrow> downstreamError e"
  by (auto simp: processBundle_def Let_def libStep_def downstreamError_def
      dest: reduceFilePairs_error split: prod.splits sum.splits option.splits if_splits)

section \<open>Properties of a run\<close>

lemma pullAll_done:
  "pullAll E (Suspended []) tr =
     \<lparr>results = [], failure = None, generator_after = Completed, history = tr\<rparr>"
  by (subst pullAll.simps) simp

lemma pullAll_range_fails:
  assumes "fps \<noteq> []" and "getBundleRange E fps tr = (Inl e, tr1)"
  shows "pullAll E (Suspended fps) tr =
     \<lparr>results = [], failure = Some e, generator_after = Suspended fps, history = tr1\<rparr>"
  using assms by (subst pullAll.simps) simp

lemma pullAll_bundle_fails:
  assumes "fps \<noteq> []" and "getBundleRange E fps tr = (Inr r, tr1)"
    and "processBundle E fps r tr1 = (Inl e, fps', tr2)"
  shows "pullAll E (Suspended fps) tr =
     \<lparr>results = [], failure = Some e, generator_after = Suspended fps', history = tr2\<rparr>"
  using assms by (subst pullAll.simps) simp

lemma pullAll_bundle_resolves:
  assumes "fps \<noteq> []" and "getBundleRange E fps tr = (Inr r, tr1)"
    and "processBundle E fps r tr1 = (Inr res, fps', tr2)"
  shows "pullAll E (Suspended fps) tr =
     (pullAll E (Suspended fps') tr2)
       \<lparr>results := res # results (pullAll E (Suspended fps') tr2)\<rparr>"
  using assms by (subst pullAll.simps) (simp add: Let_def)

lemma pullAll_created:
  assumes "ArweaveSigner_new E jwk" and "getArweave_new E"
  shows "pullAll E (Created d as jwk) tr =
     (pullAll E (Suspended (map (mkFilePair E d) as)) tr)
       \<lparr>results := emptyResult # results (pullAll E (Suspended (map (mkFilePair E d) as)) tr)\<rparr>"
  using assms by (subst pullAll.simps) (simp add: Let_def)

lemma pullAll_thrown:
  assumes "\<not> (ArweaveSigner_new E jwk \<and> getArweave_new E)"
  shows "results (pullAll E (Created d as jwk) tr) = [] \<and>
         failure (pullAll E (Created d as jwk) tr) \<noteq> None"
  using assms by (subst pullAll.simps, subst pullAll.simps) auto

lemma key_mkFilePair: "map key (map (mkFilePair E d) as) = as"
  by (induction as) (simp_all add: mkFilePair_def)

lemma pullAll_suspended:
  "\<exists>n. n \<le> length fps \<and>
      allKeys (results (pullAll E (Suspended fps) tr)) = map key (take n fps) \<and>
      runAligned E tr (Suspended fps) (results (pullAll E (Suspended fps) tr)) \<and>
      list_all resultAligned (results (pullAll E (Suspended fps) tr)) \<and>
      length (results (pullAll E (Suspended fps) tr)) \<le> length fps \<and>
      (failure (pullAll E (Suspended fps) tr) = None \<longrightarrow>
         n = length fps \<and> generator_after (pullAll E (Suspended fps) tr) = Completed)"
proof (induction "length fps" arbitrary: fps tr rule: less_induct)
  case less
  show ?case
  proof (cases "fps = []")
    case True
    show ?thesis unfolding True pullAll_done
      by (intro exI [of _ 0]) (simp add: allKeys_def)
  next
    case False
    obtain rr tr1 where gb: "getBundleRange E fps tr = (rr, tr1)"
      by (cases "getBundleRange E fps tr")
    show ?thesis
    proof (cases rr)
      case (Inl e)
      with gb have "getBundleRange E fps tr = (Inl e, tr1)" by simp
      from pullAll_range_fails [OF False this] have
        "pullAll E (Suspended fps) tr =
           \<lparr>results = [], failure = Some e, generator_after = Suspended fps, history = tr1\<rparr>" .
      then show ?thesis
        by (intro exI [of _ 0]) (simp add: allKeys_def)
    next
      case (Inr r)
      with gb have gb': "getBundleRange E fps tr = (Inr r, tr1)" by simp
      obtain out fps' tr2 where pb: "processBundle E fps r tr1 = (out, fps', tr2)"
        by (cases "processBundle E fps r tr1") auto
      from processBundle_rest [OF pb] have fps': "fps' = drop (range_count r) fps" .
      from getBundleRange_bounds [OF gb' False]
      have rng: "1 \<le> range_count r" "range_count r \<le> length fps" by blast+
      show ?thesis
      proof (cases out)
        case (Inl e)
        with pb have "processBundle E fps r tr1 = (Inl e, fps', tr2)" by simp
        from pullAll_bundle_fails [OF False gb' this] have
          "pullAll E (Suspended fps) tr =
             \<lparr>results = [], failure = Some e, generator_after = Suspended fps',
               history = tr2\<rparr>" .
        then show ?thesis
          by (intro exI [of _ 0]) (simp add: allKeys_def)
      next
        case (Inr res)
        with pb have pb': "processBundle E fps r tr1 = (Inr res, fps', tr2)" by simp
        define later where "later = pullAll E (Suspended fps') tr2"
        have unfold: "pullAll E (Suspended fps) tr = later\<lparr>results := res # results later\<rparr>"
          unfolding later_def by (rule pullAll_bundle_resolves [OF False gb' pb'])
        have step: "generatorNext E (Suspended fps) tr = (Yield (Inr res), Suspended fps', tr2)"
          using False gb' pb' by simp
        have shorter: "length fps' < length fps" using fps' rng False by simp
        have "\<exists>n. n \<le> length fps' \<and>
            allKeys (results later) = map key (take n fps') \<and>
            runAligned E tr2 (Suspended fps') (results later) \<and>
            list_all resultAligned (results later) \<and>
            length (results later) \<le> length fps' \<and>
            (failure later = None \<longrightarrow> n = length fps' \<and> generator_after later = Completed)"
          unfolding later_def by (rule less [OF shorter])
        then obtain n where ih0: "n \<le> length fps' \<and>
            allKeys (results later) = map key (take n fps') \<and>
            runAligned E tr2 (Suspended fps') (results later) \<and>
            list_all resultAligned (results later) \<and>
            length (results later) \<le> length fps' \<and>
            (failure later = None \<longrightarrow> n = length fps' \<and> generator_after later = Completed)"
          by (elim exE) (rule that)
        then have
          ih: "n \<le> length fps'"
            "allKeys (results later) = map key (take n fps')"
            "runAligned E tr2 (Suspended fps') (results later)"
            "list_all resultAligned (results later)"
            "length (results later) \<le> length fps'"
            "failure later = None \<longrightarrow> n = length fps' \<and> generator_after later = Completed"
          by simp_all
        from processBundle_resolved [OF pb'] obtain ds0 where
          b0: "bundled E tr1 (take (range_count r) fps) (cacheKeys res) (manifestLinks res)
                 (updatedManifests res) ds0"
          by blast
        from bundled_shape [OF b0] rng have
          sh: "cacheKeys res = map key (take (range_count r) fps)"
            "length (manifestLinks res) = range_count r"
            "length (updatedManifests res) = range_count r"
          by simp_all
        then have len: "length (cacheKeys res) = range_count r" using rng by simp
        have al: "resultAligned res" using sh len by (simp add: resultAligned_def)
        have a0: "aligned E (snd (getBundleRange E fps tr)) (take (length (cacheKeys res)) fps)
                    (cacheKeys res) (manifestLinks res) (updatedManifests res)"
          using bundled_aligned [OF b0] gb' len by simp
        have ra: "runAligned E tr (Suspended fps) (res # results later)"
          using a0 ih(3) step len fps' by simp
        have tk: "take (range_count r + n) fps = take (range_count r) fps @ take n fps'"
          by (simp add: fps' take_add)
        have c1: "allKeys (res # results later) = map key (take (range_count r + n) fps)"
          using sh(1) ih(2) by (simp add: tk allKeys_def)
        have c2: "range_count r + n \<le> length fps" using ih(1) fps' rng by simp
        have c3: "length (res # results later) \<le> length fps"
          using ih(5) fps' rng by simp
        have c4: "failure later = None \<longrightarrow> range_count r + n = length fps"
          using ih(6) fps' rng by simp
        show ?thesis
          unfolding unfold using c1 c2 c3 c4 ra ih(4,6) al
          by (intro exI [of _ "range_count r + n"]) simp
      qed
    qed
  qed
qed

lemma allKeys_Cons_empty: "allKeys (emptyResult # rs) = allKeys rs"
  by (simp add: allKeys_def emptyResult_def)

lemma pullAll_generator:
  fixes E dirname assets jwk tr
  defines "R \<equiv> pullAll E (makeArweaveBundleUploadGenerator dirname assets jwk) tr"
  shows "\<exists>n. n \<le> length assets \<and> allKeys (results R) = take n assets \<and>
           runAligned E tr (makeArweaveBundleUploadGenerator dirname assets jwk) (results R) \<and>
           list_all resultAligned (results R) \<and>
           length (results R) \<le> 1 + length assets \<and>
           (failure R = None \<longrightarrow> n = length assets \<and> generator_after R = Completed)"
proof (cases "ArweaveSigner_new E jwk \<and> getArweave_new E")
  case False
  from pullAll_thrown [OF False, of dirname assets tr]
  have "results R = []" "failure R \<noteq> None"
    unfolding R_def makeArweaveBundleUploadGenerator_def by simp_all
  then show ?thesis
    by (intro exI [of _ 0]) (auto simp: allKeys_def)
next
  case True
  define fps where "fps = map (mkFilePair E dirname) assets"
  define R' where "R' = pullAll E (Suspended fps) tr"
  have R: "R = R'\<lparr>results := emptyResult # results R'\<rparr>"
    unfolding R_def R'_def fps_def makeArweaveBundleUploadGenerator_def
    using True by (intro pullAll_created) simp_all
  have "\<exists>n. n \<le> length fps \<and>
      allKeys (results R') = map key (take n fps) \<and>
      runAligned E tr (Suspended fps) (results R') \<and>
      list_all resultAligned (results R') \<and>
      length (results R') \<le> length fps \<and>
      (failure R' = None \<longrightarrow> n = length fps \<and> generator_after R' = Completed)"
    unfolding R'_def by (rule pullAll_suspended)
  then obtain n where inv: "n \<le> length fps \<and>
      allKeys (results R') = map key (take n fps) \<and>
      runAligned E tr (Suspended fps) (results R') \<and>
      list_all resultAligned (results R') \<and>
      length (results R') \<le> length fps \<and>
      (failure R' = None \<longrightarrow> n = length fps \<and> generator_after R' = Completed)"
    by (elim exE) (rule that)
  have tk: "take n fps = map (mkFilePair E dirname) (take n assets)"
    by (simp add: fps_def take_map)
  from inv have "allKeys (results R') = map key (take n fps)" by simp
  also have "\<dots> = map key (map (mkFilePair E dirname) (take n assets))"
    by (simp only: tk)
  also have "\<dots> = take n assets" by (rule key_mkFilePair)
  finally have keys: "allKeys (results R') = take n assets" .
  have al: "resultAligned emptyResult" by (simp add: resultAligned_def emptyResult_def)
  have ra: "runAligned E tr (makeArweaveBundleUploadGenerator dirname assets jwk)
              (emptyResult # results R')"
    using inv by (simp add: makeArweaveBundleUploadGenerator_def fps_def)
  show ?thesis
    unfolding R
    using inv keys al ra
    by (intro exI [of _ n]) (simp add: allKeys_Cons_empty fps_def)
qed

section \<open>The claims about the transformer and the driver\<close>

lemmas sample_defs =
  sampleRunEnv_def sampleAssets_def sampleEnv_def uniformStat_def sampleFiles_def
  sampleParse_def sampleDocument_def samplePair_def mkFilePair_def
  getBundleRange_def getBundleRangeWith_def filePairSize_def BUNDLE_SIZE_BYTE_LIMIT_def
  processBundle_def Let_def processBundleFilePair_def getImageDataItem_def signDataItem_def
  getUpdatedManifest_def updateManifest_def getManifestDataItem_def createData_def
  arweaveLink_def libStep_def emptyProcessed_def emptyResult_def filesEntry_def
  CONTENT_TYPES_png_def imageTags_def manifestTags_def BASE_TAGS_def contentTypeTags_png_def
  contentTypeTags_json_def makeArweaveBundleUploadGenerator_def
  brokenRunEnv_def brokenFiles_def offlineRunEnv_def sampleKey_def
  sampleImageRecord_def sampleManifestRecord_def sampleUpdated_def

lemmas spec_defs =
  transformed_def described_def imageId_def manifestId_def parsedManifest_def
  unsignedImage_def pairCalls_def pairFailure_def bundleFailure_def



text \<open>
  Claim C8. For every directory, asset list (the empty one included) and key: whatever
  value the first \<^verbatim>\<open>next()\<close> of the generator yields is the empty result, and the
  history of external calls is unchanged, so nothing has been examined, read, signed or
  submitted. The value is yielded whenever the signer and the client can be constructed;
  when a constructor throws, \<^verbatim>\<open>next()\<close> throws and no value is produced.
\<close>

theorem generator_first_result_empty:
  "(fst (generatorNext E (makeArweaveBundleUploadGenerator dirname assets jwk) tr) = Yield v \<longrightarrow>
      v = Inr \<lparr>cacheKeys = [], manifestLinks = [], updatedManifests = []\<rparr>) \<and>
   snd (snd (generatorNext E (makeArweaveBundleUploadGenerator dirname assets jwk) tr)) = tr \<and>
   (ArweaveSigner_new E jwk \<and> getArweave_new E \<longrightarrow>
      generatorNext E (makeArweaveBundleUploadGenerator dirname assets jwk) tr =
        (Yield (Inr \<lparr>cacheKeys = [], manifestLinks = [], updatedManifests = []\<rparr>),
         Suspended (map (mkFilePair E dirname) assets), tr)) \<and>
   (\<not> (ArweaveSigner_new E jwk \<and> getArweave_new E) \<longrightarrow>
      (\<exists>e. generatorNext E (makeArweaveBundleUploadGenerator dirname assets jwk) tr =
             (Thrown e, Completed, tr)))"
  by (auto simp: makeArweaveBundleUploadGenerator_def emptyResult_def)

theorem generator_first_result_empty_witness:
  "ArweaveSigner_new sampleRunEnv sampleKey \<and> getArweave_new sampleRunEnv \<and>
   generatorNext sampleRunEnv (makeArweaveBundleUploadGenerator ''assets'' [] sampleKey) [] =
     (Yield (Inr \<lparr>cacheKeys = [], manifestLinks = [], updatedManifests = []\<rparr>),
      Suspended [], []) \<and>
   \<not> ArweaveSigner_new sampleRunEnv JNull \<and>
   (\<exists>e. generatorNext sampleRunEnv (makeArweaveBundleUploadGenerator ''assets'' [] JNull) [] =
          (Thrown e, Completed, []))"
proof -
  have h1: "ArweaveSigner_new sampleRunEnv sampleKey \<and> getArweave_new sampleRunEnv"
    by (simp add: sampleRunEnv_def sampleEnv_def sampleKey_def)
  have h2: "\<not> ArweaveSigner_new sampleRunEnv JNull"
    by (simp add: sampleRunEnv_def sampleEnv_def)
  from generator_first_result_empty
         [of sampleRunEnv "''assets''" "[]" sampleKey "[]"
             "Inr \<lparr>cacheKeys = [], manifestLinks = [], updatedManifests = []\<rparr>"] h1
  have a: "generatorNext sampleRunEnv
             (makeArweaveBundleUploadGenerator ''assets'' [] sampleKey) [] =
     (Yield (Inr \<lparr>cacheKeys = [], manifestLinks = [], updatedManifests = []\<rparr>),
      Suspended [], [])"
    by simp
  from generator_first_result_empty
         [of sampleRunEnv "''assets''" "[]" JNull "[]"
             "Inr \<lparr>cacheKeys = [], manifestLinks = [], updatedManifests = []\<rparr>"] h2
  have b: "\<exists>e. generatorNext sampleRunEnv
             (makeArweaveBundleUploadGenerator ''assets'' [] JNull) [] = (Thrown e, Completed, [])"
    by simp
  from h1 h2 a b show ?thesis by simp
qed




text \<open>
  Claim C5. When the range of a non-empty pending list has been computed, the pull leaves
  the generator with the old list without the pairs of the range, whatever happens next.
  If, after the pairs before it have been transformed, a step of a pair of the range
  fails (reading the image, signing, reading the manifest, parsing, updating), or if all
  pairs have been transformed and a library call of the submission fails, then the
  promise of the pull rejects with the error of that step; and every error a pull
  rejects with after the range was computed is the error of such a step.
\<close>

theorem failed_bundle_pairs_not_restored:
  assumes "filePairs \<noteq> []"
    and "fst (getBundleRange E filePairs tr) = Inr r"
  shows "fst (snd (generatorNext E (Suspended filePairs) tr)) =
           Suspended (drop (range_count r) filePairs) \<and>
         (i < range_count r \<and>
          \<not> isl (fst (reduceFilePairs E emptyProcessed (take i filePairs)
                        (snd (getBundleRange E filePairs tr)))) \<and>
          pairFailure E
            (snd (reduceFilePairs E emptyProcessed (take i filePairs)
                    (snd (getBundleRange E filePairs tr))))
            (filePairs ! i) = Some e \<longrightarrow>
          fst (generatorNext E (Suspended filePairs) tr) = Yield (Inl e)) \<and>
         (\<not> isl (fst (reduceFilePairs E emptyProcessed (take (range_count r) filePairs)
                        (snd (getBundleRange E filePairs tr)))) \<and>
          bundleFailure E
            (snd (reduceFilePairs E emptyProcessed (take (range_count r) filePairs)
                    (snd (getBundleRange E filePairs tr))))
            (dataItems (projr (fst (reduceFilePairs E emptyProcessed
                                      (take (range_count r) filePairs)
                                      (snd (getBundleRange E filePairs tr)))))) = Some e' \<longrightarrow>
          fst (generatorNext E (Suspended filePairs) tr) = Yield (Inl e')) \<and>
         (fst (generatorNext E (Suspended filePairs) tr) = Yield (Inl e'') \<longrightarrow>
          downstreamError e'')"
proof -
  obtain tr1 where gb: "getBundleRange E filePairs tr = (Inr r, tr1)"
    using assms(2) by (cases "getBundleRange E filePairs tr") auto
  from getBundleRange_bounds [OF gb assms(1)] have
    rng: "1 \<le> range_count r" "range_count r \<le> length filePairs" by simp_all
  obtain out fps' tr2 where pb: "processBundle E filePairs r tr1 = (out, fps', tr2)"
    by (cases "processBundle E filePairs r tr1") auto
  have step: "generatorNext E (Suspended filePairs) tr = (Yield out, Suspended fps', tr2)"
    using assms(1) gb pb by simp
  from processBundle_rest [OF pb] have rest: "fps' = drop (range_count r) filePairs" .
  have a: "fst (snd (generatorNext E (Suspended filePairs) tr)) =
             Suspended (drop (range_count r) filePairs)"
    using step rest by simp
  have b: "fst (generatorNext E (Suspended filePairs) tr) = Yield (Inl e)"
    if i: "i < range_count r"
      and ok: "\<not> isl (fst (reduceFilePairs E emptyProcessed (take i filePairs) tr1))"
      and bad: "pairFailure E (snd (reduceFilePairs E emptyProcessed (take i filePairs) tr1))
                  (filePairs ! i) = Some e"
  proof -
    have "min i (range_count r) = i" using i by simp
    then have t1: "take i (take (range_count r) filePairs) = take i filePairs"
      by simp
    have t2: "take (range_count r) filePairs ! i = filePairs ! i"
      using i by simp
    have il: "i < length (take (range_count r) filePairs)" using i rng by simp
    from ok obtain acc where
      "fst (reduceFilePairs E emptyProcessed (take i filePairs) tr1) = Inr acc"
      by (cases "fst (reduceFilePairs E emptyProcessed (take i filePairs) tr1)") auto
    then have "fst (processBundle E filePairs r tr1) = Inl e"
      using bad by (intro processBundle_pair_fails [OF il, where acc = acc]) (simp_all only: t1 t2)
    with pb step show ?thesis by simp
  qed
  have c: "fst (generatorNext E (Suspended filePairs) tr) = Yield (Inl e')"
    if ok: "\<not> isl (fst (reduceFilePairs E emptyProcessed (take (range_count r) filePairs) tr1))"
      and bad: "bundleFailure E
            (snd (reduceFilePairs E emptyProcessed (take (range_count r) filePairs) tr1))
            (dataItems (projr (fst (reduceFilePairs E emptyProcessed
                                      (take (range_count r) filePairs) tr1)))) = Some e'"
  proof -
    from ok obtain acc where
      acc: "fst (reduceFilePairs E emptyProcessed (take (range_count r) filePairs) tr1) = Inr acc"
      by (cases "fst (reduceFilePairs E emptyProcessed (take (range_count r) filePairs) tr1)")
         auto
    with bad have "fst (processBundle E filePairs r tr1) = Inl e'"
      by (intro processBundle_bundle_fails [where acc = acc]) simp_all
    with pb step show ?thesis by simp
  qed
  have d: "downstreamError e''"
    if "fst (generatorNext E (Suspended filePairs) tr) = Yield (Inl e'')"
  proof -
    from that step have "out = Inl e''" by simp
    with pb processBundle_error show ?thesis by blast
  qed
  from a b c d show ?thesis using gb by simp
qed


theorem failed_bundle_pairs_not_restored_witness:
  "fst (getBundleRange brokenRunEnv (map (mkFilePair brokenRunEnv ''assets'') sampleAssets) []) =
     Inr \<lparr>range_count = 2, size_bytes = 180002000\<rparr> \<and>
   pairFailure brokenRunEnv
     (snd (reduceFilePairs brokenRunEnv emptyProcessed
             (take 1 (map (mkFilePair brokenRunEnv ''assets'') sampleAssets))
             (snd (getBundleRange brokenRunEnv
                     (map (mkFilePair brokenRunEnv ''assets'') sampleAssets) []))))
     (map (mkFilePair brokenRunEnv ''assets'') sampleAssets ! 1) =
     Some (ParseError ''assets/1.json'') \<and>
   fst (generatorNext brokenRunEnv
          (Suspended (map (mkFilePair brokenRunEnv ''assets'') sampleAssets)) []) =
     Yield (Inl (ParseError ''assets/1.json'')) \<and>
   fst (snd (generatorNext brokenRunEnv
          (Suspended (map (mkFilePair brokenRunEnv ''assets'') sampleAssets)) [])) =
     Suspended [mkFilePair brokenRunEnv ''assets'' ''2''] \<and>
   downstreamError (ParseError ''assets/1.json'') \<and>
   bundleFailure offlineRunEnv
     (snd (reduceFilePairs offlineRunEnv emptyProcessed
             (take 2 (map (mkFilePair offlineRunEnv ''assets'') sampleAssets))
             (snd (getBundleRange offlineRunEnv
                     (map (mkFilePair offlineRunEnv ''assets'') sampleAssets) []))))
     [sampleImageRecord, sampleManifestRecord, sampleImageRecord, sampleManifestRecord] =
     Some SubmissionError \<and>
   fst (generatorNext offlineRunEnv
          (Suspended (map (mkFilePair offlineRunEnv ''assets'') sampleAssets)) []) =
     Yield (Inl SubmissionError) \<and>
   fst (snd (generatorNext offlineRunEnv
          (Suspended (map (mkFilePair offlineRunEnv ''assets'') sampleAssets)) [])) =
     Suspended [mkFilePair offlineRunEnv ''assets'' ''2'']"
proof -
  let ?B = "map (mkFilePair brokenRunEnv ''assets'') sampleAssets"
  let ?O = "map (mkFilePair offlineRunEnv ''assets'') sampleAssets"
  let ?r = "\<lparr>range_count = 2, size_bytes = 180002000\<rparr>"
  have ne: "?B \<noteq> []" "?O \<noteq> []" by (simp_all add: sampleAssets_def)
  have r1: "fst (getBundleRange brokenRunEnv ?B []) = Inr ?r"
    by (simp add: sample_defs)
  have r2: "fst (getBundleRange offlineRunEnv ?O []) = Inr ?r"
    by (simp add: sample_defs)
  have i: "(1::nat) < range_count ?r" by simp
  have ok1: "\<not> isl (fst (reduceFilePairs brokenRunEnv emptyProcessed (take 1 ?B)
                          (snd (getBundleRange brokenRunEnv ?B []))))"
    by (simp add: sample_defs)
  have bad1: "pairFailure brokenRunEnv
     (snd (reduceFilePairs brokenRunEnv emptyProcessed (take 1 ?B)
             (snd (getBundleRange brokenRunEnv ?B [])))) (?B ! 1) =
     Some (ParseError ''assets/1.json'')"
    by (simp add: sample_defs spec_defs)
  have ok2: "\<not> isl (fst (reduceFilePairs offlineRunEnv emptyProcessed
                          (take (range_count ?r) ?O)
                          (snd (getBundleRange offlineRunEnv ?O []))))"
    by (simp add: sample_defs)
  have ds2: "dataItems (projr (fst (reduceFilePairs offlineRunEnv emptyProcessed
                          (take (range_count ?r) ?O)
                          (snd (getBundleRange offlineRunEnv ?O []))))) =
     [sampleImageRecord, sampleManifestRecord, sampleImageRecord, sampleManifestRecord]"
    by (simp add: sample_defs)
  have bad2: "bundleFailure offlineRunEnv
     (snd (reduceFilePairs offlineRunEnv emptyProcessed (take (range_count ?r) ?O)
             (snd (getBundleRange offlineRunEnv ?O []))))
     [sampleImageRecord, sampleManifestRecord, sampleImageRecord, sampleManifestRecord] =
     Some SubmissionError"
    by (simp add: sample_defs spec_defs)
  note T1 = failed_bundle_pairs_not_restored [OF ne(1) r1,
      where i = 1 and e = "ParseError ''assets/1.json''" and e' = SubmissionError
        and e'' = "ParseError ''assets/1.json''"]
  note T2 = failed_bundle_pairs_not_restored [OF ne(2) r2,
      where i = 1 and e = "ParseError ''assets/1.json''" and e' = SubmissionError
        and e'' = SubmissionError]
  from T1 i ok1 bad1 have
    c1: "fst (generatorNext brokenRunEnv (Suspended ?B) []) =
           Yield (Inl (ParseError ''assets/1.json''))"
    by blast
  from T1 c1 have c2: "downstreamError (ParseError ''assets/1.json'')" by blast
  from T1 have c3: "fst (snd (generatorNext brokenRunEnv (Suspended ?B) [])) =
                      Suspended (drop (range_count ?r) ?B)" by blast
  from T2 ok2 bad2 ds2 have
    c4: "fst (generatorNext offlineRunEnv (Suspended ?O) []) = Yield (Inl SubmissionError)"
    by simp
  from T2 have c5: "fst (snd (generatorNext offlineRunEnv (Suspended ?O) [])) =
                      Suspended (drop (range_count ?r) ?O)" by blast
  have d1: "drop (range_count ?r) ?B = [mkFilePair brokenRunEnv ''assets'' ''2'']"
    "drop (range_count ?r) ?O = [mkFilePair offlineRunEnv ''assets'' ''2'']"
    by (simp_all add: sampleAssets_def)
  from r1 bad1 c1 c2 c3 bad2 c4 c5 show ?thesis
    by (simp only: d1 select_convs) simp
qed

text \<open>
  Claim C4. For every run of the caller over an asset list: in each result the three
  sequences have the same length; the keys of all results, end to end, are a prefix of
  the asset list, so every pair is in one result or in none and never in two (the keys
  are distinct when the assets are); and every result after the initial empty one takes
  its pairs from the front of what is pending, its keys, links and documents being,
  position by position, the key of the pair, the link the signer's id gives for the
  document of that pair, and the manifest of that pair updated with the link of its own
  image record.
\<close>

theorem results_cover_each_pair_once:
  "list_all resultAligned
     (results (pullAll E (makeArweaveBundleUploadGenerator dirname assets jwk) tr)) \<and>
   allKeys (results (pullAll E (makeArweaveBundleUploadGenerator dirname assets jwk) tr)) =
     take (length (allKeys
            (results (pullAll E (makeArweaveBundleUploadGenerator dirname assets jwk) tr))))
       assets \<and>
   runAligned E tr (makeArweaveBundleUploadGenerator dirname assets jwk)
     (results (pullAll E (makeArweaveBundleUploadGenerator dirname assets jwk) tr)) \<and>
   (distinct assets \<longrightarrow>
      distinct (allKeys
        (results (pullAll E (makeArweaveBundleUploadGenerator dirname assets jwk) tr))))"
proof -
  define R where "R = pullAll E (makeArweaveBundleUploadGenerator dirname assets jwk) tr"
  have "\<exists>n. n \<le> length assets \<and> allKeys (results R) = take n assets \<and>
           runAligned E tr (makeArweaveBundleUploadGenerator dirname assets jwk) (results R) \<and>
           list_all resultAligned (results R) \<and>
           length (results R) \<le> 1 + length assets \<and>
           (failure R = None \<longrightarrow> n = length assets \<and> generator_after R = Completed)"
    unfolding R_def by (rule pullAll_generator)
  then obtain n where inv: "n \<le> length assets" "allKeys (results R) = take n assets"
    "runAligned E tr (makeArweaveBundleUploadGenerator dirname assets jwk) (results R)"
    "list_all resultAligned (results R)"
    by (elim exE conjE) (rule that)
  have len: "length (allKeys (results R)) = n" using inv(1,2) by simp
  have "distinct assets \<longrightarrow> distinct (allKeys (results R))"
    by (simp add: inv(2))
  moreover have "allKeys (results R) = take (length (allKeys (results R))) assets"
    using inv(2) len by simp
  ultimately show ?thesis using inv(3,4) unfolding R_def by simp
qed

lemma sample_run:
  "results (pullAll sampleRunEnv
      (makeArweaveBundleUploadGenerator ''assets'' sampleAssets sampleKey) []) =
     [\<lparr>cacheKeys = [], manifestLinks = [], updatedManifests = []\<rparr>,
      \<lparr>cacheKeys = [''0'', ''1''],
       manifestLinks = [''https://arweave.net/tx-nameimageproperties'',
                        ''https://arweave.net/tx-nameimageproperties''],
       updatedManifests = [sampleUpdated, sampleUpdated]\<rparr>,
      \<lparr>cacheKeys = [''2''],
       manifestLinks = [''https://arweave.net/tx-nameimageproperties''],
       updatedManifests = [sampleUpdated]\<rparr>]"
  "failure (pullAll sampleRunEnv
      (makeArweaveBundleUploadGenerator ''assets'' sampleAssets sampleKey) []) = None"
  "generator_after (pullAll sampleRunEnv
      (makeArweaveBundleUploadGenerator ''assets'' sampleAssets sampleKey) []) = Completed"
  by (simp_all add: pullAll.simps sample_defs)

theorem results_cover_each_pair_once_witness:
  "distinct sampleAssets \<and>
   map cacheKeys (results (pullAll sampleRunEnv
        (makeArweaveBundleUploadGenerator ''assets'' sampleAssets sampleKey) [])) =
     [[], [''0'', ''1''], [''2'']] \<and>
   list_all resultAligned (results (pullAll sampleRunEnv
        (makeArweaveBundleUploadGenerator ''assets'' sampleAssets sampleKey) [])) \<and>
   runAligned sampleRunEnv [] (makeArweaveBundleUploadGenerator ''assets'' sampleAssets sampleKey)
     (results (pullAll sampleRunEnv
        (makeArweaveBundleUploadGenerator ''assets'' sampleAssets sampleKey) [])) \<and>
   distinct (allKeys (results (pullAll sampleRunEnv
        (makeArweaveBundleUploadGenerator ''assets'' sampleAssets sampleKey) [])))"
proof -
  have d: "distinct sampleAssets" by (simp add: sampleAssets_def)
  from results_cover_each_pair_once [of sampleRunEnv "''assets''" sampleAssets sampleKey "[]"] d
  have "list_all resultAligned (results (pullAll sampleRunEnv
        (makeArweaveBundleUploadGenerator ''assets'' sampleAssets sampleKey) []))"
    and "runAligned sampleRunEnv []
        (makeArweaveBundleUploadGenerator ''assets'' sampleAssets sampleKey)
        (results (pullAll sampleRunEnv
           (makeArweaveBundleUploadGenerator ''assets'' sampleAssets sampleKey) []))"
    and "distinct (allKeys (results (pullAll sampleRunEnv
        (makeArweaveBundleUploadGenerator ''assets'' sampleAssets sampleKey) [])))"
    by blast+
  with d show ?thesis by (simp add: sample_run(1))
qed

text \<open>
  Claim C9. On a non-empty pending list a range that \<open>getBundleRange\<close> returns has a
  count of at least one and at most the length of the list; a pull that resolves leaves a
  strictly shorter pending list; and the caller, which is a total function, receives at
  most one result more than there are assets, and when nothing fails the generator ends
  completed with every asset in a result.
\<close>

theorem driver_produces_at_most_one_more_than_pairs:
  "(ps \<noteq> [] \<and> fst (getBundleRange E ps tr0) = Inr r \<longrightarrow>
      1 \<le> range_count r \<and> range_count r \<le> length ps) \<and>
   (fst (generatorNext E (Suspended ps) tr0) = Yield (Inr res) \<longrightarrow>
      (\<exists>ps'. fst (snd (generatorNext E (Suspended ps) tr0)) = Suspended ps' \<and>
             length ps' < length ps)) \<and>
   length (results (pullAll E (makeArweaveBundleUploadGenerator dirname assets jwk) tr))
     \<le> 1 + length assets \<and>
   (failure (pullAll E (makeArweaveBundleUploadGenerator dirname assets jwk) tr) = None \<longrightarrow>
      generator_after (pullAll E (makeArweaveBundleUploadGenerator dirname assets jwk) tr) =
        Completed \<and>
      allKeys (results (pullAll E (makeArweaveBundleUploadGenerator dirname assets jwk) tr)) =
        assets)"
proof -
  have a: "ps \<noteq> [] \<and> fst (getBundleRange E ps tr0) = Inr r \<longrightarrow>
      1 \<le> range_count r \<and> range_count r \<le> length ps"
  proof (intro impI, elim conjE)
    assume ne: "ps \<noteq> []" and ok: "fst (getBundleRange E ps tr0) = Inr r"
    then obtain tr1 where "getBundleRange E ps tr0 = (Inr r, tr1)"
      by (cases "getBundleRange E ps tr0") auto
    from getBundleRange_bounds [OF this ne]
    show "1 \<le> range_count r \<and> range_count r \<le> length ps" .
  qed
  have b: "fst (generatorNext E (Suspended ps) tr0) = Yield (Inr res) \<longrightarrow>
      (\<exists>ps'. fst (snd (generatorNext E (Suspended ps) tr0)) = Suspended ps' \<and>
             length ps' < length ps)"
  proof
    assume ok: "fst (generatorNext E (Suspended ps) tr0) = Yield (Inr res)"
    obtain g' tr' where st: "generatorNext E (Suspended ps) tr0 = (Yield (Inr res), g', tr')"
      using ok by (cases "generatorNext E (Suspended ps) tr0") auto
    from generatorNext_decreases [OF st] have lt: "generatorSize g' < length ps + 1" by simp
    from st obtain ps' where g': "g' = Suspended ps'"
      by (auto split: if_splits prod.splits sum.splits)
    with lt st show "\<exists>ps'. fst (snd (generatorNext E (Suspended ps) tr0)) = Suspended ps' \<and>
             length ps' < length ps"
      by simp
  qed
  define R where "R = pullAll E (makeArweaveBundleUploadGenerator dirname assets jwk) tr"
  have "\<exists>n. n \<le> length assets \<and> allKeys (results R) = take n assets \<and>
           runAligned E tr (makeArweaveBundleUploadGenerator dirname assets jwk) (results R) \<and>
           list_all resultAligned (results R) \<and>
           length (results R) \<le> 1 + length assets \<and>
           (failure R = None \<longrightarrow> n = length assets \<and> generator_after R = Completed)"
    unfolding R_def by (rule pullAll_generator)
  then obtain n where inv: "allKeys (results R) = take n assets"
    "length (results R) \<le> 1 + length assets"
    "failure R = None \<longrightarrow> n = length assets \<and> generator_after R = Completed"
    by (elim exE conjE) (rule that)
  then have c: "length (results R) \<le> 1 + length assets \<and>
     (failure R = None \<longrightarrow> generator_after R = Completed \<and> allKeys (results R) = assets)"
    by simp
  from a b c show ?thesis unfolding R_def by simp
qed

theorem driver_produces_at_most_one_more_than_pairs_witness:
  "map (mkFilePair sampleRunEnv ''assets'') sampleAssets \<noteq> [] \<and>
   fst (getBundleRange sampleRunEnv (map (mkFilePair sampleRunEnv ''assets'') sampleAssets) []) =
     Inr \<lparr>range_count = 2, size_bytes = 180002000\<rparr> \<and>
   fst (generatorNext sampleRunEnv
          (Suspended (map (mkFilePair sampleRunEnv ''assets'') sampleAssets)) []) =
     Yield (Inr \<lparr>cacheKeys = [''0'', ''1''],
                 manifestLinks = [''https://arweave.net/tx-nameimageproperties'',
                                  ''https://arweave.net/tx-nameimageproperties''],
                 updatedManifests = [sampleUpdated, sampleUpdated]\<rparr>) \<and>
   fst (snd (generatorNext sampleRunEnv
          (Suspended (map (mkFilePair sampleRunEnv ''assets'') sampleAssets)) [])) =
     Suspended [mkFilePair sampleRunEnv ''assets'' ''2''] \<and>
   failure (pullAll sampleRunEnv
      (makeArweaveBundleUploadGenerator ''assets'' sampleAssets sampleKey) []) = None \<and>
   length (results (pullAll sampleRunEnv
      (makeArweaveBundleUploadGenerator ''assets'' sampleAssets sampleKey) [])) = 3 \<and>
   generator_after (pullAll sampleRunEnv
      (makeArweaveBundleUploadGenerator ''assets'' sampleAssets sampleKey) []) = Completed \<and>
   allKeys (results (pullAll sampleRunEnv
      (makeArweaveBundleUploadGenerator ''assets'' sampleAssets sampleKey) [])) = sampleAssets"
proof -
  have h1: "map (mkFilePair sampleRunEnv ''assets'') sampleAssets \<noteq> []"
    by (simp add: sampleAssets_def)
  have h2: "fst (getBundleRange sampleRunEnv
                   (map (mkFilePair sampleRunEnv ''assets'') sampleAssets) []) =
     Inr \<lparr>range_count = 2, size_bytes = 180002000\<rparr>"
    by (simp add: sample_defs)
  have h3: "fst (generatorNext sampleRunEnv
          (Suspended (map (mkFilePair sampleRunEnv ''assets'') sampleAssets)) []) =
     Yield (Inr \<lparr>cacheKeys = [''0'', ''1''],
                 manifestLinks = [''https://arweave.net/tx-nameimageproperties'',
                                  ''https://arweave.net/tx-nameimageproperties''],
                 updatedManifests = [sampleUpdated, sampleUpdated]\<rparr>)"
    by (simp add: sample_defs)
  have h4: "fst (snd (generatorNext sampleRunEnv
          (Suspended (map (mkFilePair sampleRunEnv ''assets'') sampleAssets)) [])) =
     Suspended [mkFilePair sampleRunEnv ''assets'' ''2'']"
    by (simp add: sample_defs)
  note run = sample_run
  from driver_produces_at_most_one_more_than_pairs
         [of "map (mkFilePair sampleRunEnv ''assets'') sampleAssets" sampleRunEnv "[]"
             "\<lparr>range_count = 2, size_bytes = 180002000\<rparr>"
             "\<lparr>cacheKeys = [''0'', ''1''],
                 manifestLinks = [''https://arweave.net/tx-nameimageproperties'',
                                  ''https://arweave.net/tx-nameimageproperties''],
                 updatedManifests = [sampleUpdated, sampleUpdated]\<rparr>"
             "''assets''" sampleAssets sampleKey "[]"]
    h1 h2 h3 h4 run(2)
  have "generator_after (pullAll sampleRunEnv
      (makeArweaveBundleUploadGenerator ''assets'' sampleAssets sampleKey) []) = Completed \<and>
   allKeys (results (pullAll sampleRunEnv
      (makeArweaveBundleUploadGenerator ''assets'' sampleAssets sampleKey) [])) = sampleAssets"
    by blast
  with h1 h2 h3 h4 run(2) show ?thesis by (simp add: run(1))
qed

end
